theory Spec2Isabelle
  imports Complex_Main "HOL-Library.Sublist" "HOL-Library.Multiset"
begin

section \<open>JavaScript values used by the SDK\<close>

text \<open>
  A JavaScript \<^verbatim>\<open>number\<close> is modelled by a real number: sums, differences and
  comparisons are read as exact, and \<^verbatim>\<open>NaN\<close> and the infinities are outside the model.
  Of the rounding of doubles only the underflow of \<^verbatim>\<open>Math.exp\<close> is modelled (see
  \<open>Math_exp\<close> below), which is where it decides a property of the similarity score.
  A JavaScript string is a \<^typ>\<open>string\<close>; the model is about ASCII text, so a character
  is one code unit, the letters \<^verbatim>\<open>a\<close> to \<^verbatim>\<open>z\<close> are the only ones that
  \<^verbatim>\<open>toUpperCase\<close> changes, and white space is the ASCII white space.
\<close>

type_synonym number = real

datatype jsval =
    JUndefined
  | JNull
  | JBool bool
  | JNum number
  | JStr string
  | JObject "string option"

text \<open>
  An object (or array, or function) is represented by what \<^verbatim>\<open>String\<close> does with it,
  which is all that the SDK ever asks of one besides its truthiness and its
  \<^verbatim>\<open>typeof\<close>: \<open>JObject (Some s)\<close> converts to the string \<open>s\<close>, and \<open>JObject None\<close> is
  an object that cannot be converted to a primitive value, such as
  \<^verbatim>\<open>Object.create(null)\<close>, on which \<^verbatim>\<open>String\<close> raises a \<^verbatim>\<open>TypeError\<close>.
\<close>

datatype error = TypeError

text \<open>
  \<^verbatim>\<open>String(v)\<close>. The decimal rendering of a number is not modelled: it is the parameter
  \<open>fmt\<close>, which every parser below takes as its first argument. A string converts to
  itself.
\<close>

definition String_js :: "(number \<Rightarrow> string) \<Rightarrow> jsval \<Rightarrow> error + string" where
  "String_js fmt v =
     (case v of
        JStr s \<Rightarrow> Inr s
      | JUndefined \<Rightarrow> Inr ''undefined''
      | JNull \<Rightarrow> Inr ''null''
      | JBool b \<Rightarrow> Inr (if b then ''true'' else ''false'')
      | JNum x \<Rightarrow> Inr (fmt x)
      | JObject None \<Rightarrow> Inl TypeError
      | JObject (Some s) \<Rightarrow> Inr s)"

text \<open>Truthiness, and the operator \<^verbatim>\<open>a || b\<close>.\<close>

definition truthy :: "jsval \<Rightarrow> bool" where
  "truthy v =
     (case v of
        JUndefined \<Rightarrow> False
      | JNull \<Rightarrow> False
      | JBool b \<Rightarrow> b
      | JNum x \<Rightarrow> x \<noteq> 0
      | JStr s \<Rightarrow> s \<noteq> []
      | JObject _ \<Rightarrow> True)"

definition js_or :: "jsval \<Rightarrow> jsval \<Rightarrow> jsval" where
  "js_or a b = (if truthy a then a else b)"

subsection \<open>String methods\<close>

definition isWhiteSpace :: "char \<Rightarrow> bool" where
  "isWhiteSpace c =
     (c = CHR 0x09 \<or> c = CHR 0x0A \<or> c = CHR 0x0B \<or> c = CHR 0x0C \<or> c = CHR 0x0D \<or> c = CHR '' '')"

definition toUpperCase_char :: "char \<Rightarrow> char" where
  "toUpperCase_char c =
     (case map_of (zip ''abcdefghijklmnopqrstuvwxyz'' ''ABCDEFGHIJKLMNOPQRSTUVWXYZ'') c of
        Some u \<Rightarrow> u
      | None \<Rightarrow> c)"

definition toLowerCase_char :: "char \<Rightarrow> char" where
  "toLowerCase_char c =
     (case map_of (zip ''ABCDEFGHIJKLMNOPQRSTUVWXYZ'' ''abcdefghijklmnopqrstuvwxyz'') c of
        Some l \<Rightarrow> l
      | None \<Rightarrow> c)"

definition toUpperCase :: "string \<Rightarrow> string" where
  "toUpperCase s = map toUpperCase_char s"

definition toLowerCase :: "string \<Rightarrow> string" where
  "toLowerCase s = map toLowerCase_char s"

definition trim :: "string \<Rightarrow> string" where
  "trim s = rev (dropWhile isWhiteSpace (rev (dropWhile isWhiteSpace s)))"

text \<open>
  \<^verbatim>\<open>s.replace(/[...]/g, "")\<close> for a character class: every character of the class
  is deleted, scanning from the left.
\<close>

fun replace_class :: "(char \<Rightarrow> bool) \<Rightarrow> string \<Rightarrow> string" where
  "replace_class cls [] = []"
| "replace_class cls (c # cs) =
     (if cls c then replace_class cls cs else c # replace_class cls cs)"

definition substring :: "nat \<Rightarrow> nat \<Rightarrow> string \<Rightarrow> string" where
  "substring i j s = take (j - i) (drop i s)"

text \<open>\<^verbatim>\<open>s.includes(t)\<close>: \<open>t\<close> occurs in \<open>s\<close> at some position.\<close>

fun startsWith :: "string \<Rightarrow> string \<Rightarrow> bool" where
  "startsWith s [] = True"
| "startsWith [] (y # t) = False"
| "startsWith (x # s) (y # t) = (x = y \<and> startsWith s t)"

fun includes_js :: "string \<Rightarrow> string \<Rightarrow> bool" where
  "includes_js [] t = (t = [])"
| "includes_js (c # s) t = (startsWith (c # s) t \<or> includes_js s t)"

section \<open>Cannabinoid utilities\<close>

record CannabioidColor =
  hex :: string
  rgb :: "nat \<times> nat \<times> nat"
  therapeutic :: "string option"
  threshold :: "(number \<times> number) option"

text \<open>
  The registry, an object literal: \<^verbatim>\<open>Object.keys\<close> and \<^verbatim>\<open>Object.entries\<close>
  enumerate its keys in the order in which they are written.
\<close>

definition STANDARD_CANNABINOIDS :: "(string \<times> CannabioidColor) list" where
  "STANDARD_CANNABINOIDS =
     [(''THC'',  \<lparr>hex = ''#E74C3C'', rgb = (231, 76, 60),
                  therapeutic = Some ''Psychoactive, Pain Relief, Nausea'', threshold = Some (0, 35)\<rparr>),
      (''CBD'',  \<lparr>hex = ''#3498DB'', rgb = (52, 152, 219),
                  therapeutic = Some ''Anti-inflammatory, Anxiety, Seizures'', threshold = Some (0, 25)\<rparr>),
      (''CBN'',  \<lparr>hex = ''#E67E22'', rgb = (230, 126, 34),
                  therapeutic = Some ''Sedation, Sleep, Anti-inflammatory'', threshold = Some (0, 5)\<rparr>),
      (''CBG'',  \<lparr>hex = ''#9B59B6'', rgb = (155, 89, 182),
                  therapeutic = Some ''Uplift, Focus, Appetite Stimulant'', threshold = Some (0, 5)\<rparr>),
      (''CBC'',  \<lparr>hex = ''#16A085'', rgb = (22, 160, 133),
                  therapeutic = Some ''Anti-inflammatory, Mood Support'', threshold = Some (0, 1)\<rparr>),
      (''THCV'', \<lparr>hex = ''#F39C12'', rgb = (243, 156, 18),
                  therapeutic = Some ''Energy, Appetite Suppression, Focus'', threshold = Some (0, 3)\<rparr>),
      (''CBDV'', \<lparr>hex = ''#1ABC9C'', rgb = (26, 188, 156),
                  therapeutic = Some ''Seizure Support, Nausea'', threshold = Some (0, 1)\<rparr>),
      (''CBDA'', \<lparr>hex = ''#D4AF37'', rgb = (212, 175, 55),
                  therapeutic = Some ''Raw Form, Anti-inflammatory'', threshold = Some (0, 5)\<rparr>),
      (''THCA'', \<lparr>hex = ''#C0392B'', rgb = (192, 57, 43),
                  therapeutic = Some ''Raw Psychoactive, Anti-inflammatory'', threshold = Some (0, 35)\<rparr>)]"

definition Object_keys :: "('k \<times> 'v) list \<Rightarrow> 'k list" where
  "Object_keys obj = map fst obj"

definition normalizeCannabioidName :: "string \<Rightarrow> string" where
  "normalizeCannabioidName name =
     substring 0 5
       (replace_class (\<lambda>c. c = CHR ''%'')
         (replace_class (\<lambda>c. isWhiteSpace c \<or> c = CHR ''-'' \<or> c = CHR ''_'')
           (trim (toUpperCase name))))"

text \<open>
  The loop of \<^verbatim>\<open>getCannabioidDisplayName\<close> over the keys: the first key that
  contains the normalized name, or is contained in it, is returned; when the keys are
  exhausted the name is returned as it was given.
\<close>

fun displayName_loop :: "string list \<Rightarrow> string \<Rightarrow> string \<Rightarrow> string" where
  "displayName_loop [] normalized name = name"
| "displayName_loop (key # keys) normalized name =
     (if includes_js key normalized \<or> includes_js normalized key then key
      else displayName_loop keys normalized name)"

definition getCannabioidDisplayName :: "string \<Rightarrow> string" where
  "getCannabioidDisplayName name =
     displayName_loop (Object_keys STANDARD_CANNABINOIDS) (normalizeCannabioidName name) name"

section \<open>Data model\<close>

text \<open>
  A JavaScript \<^verbatim>\<open>Map\<close> is a list of key-value pairs with distinct keys, in insertion
  order: \<^verbatim>\<open>set\<close> replaces the value of a key that is present, where it stands, and
  appends a key that is new.
\<close>

type_synonym ('k, 'v) Map = "('k \<times> 'v) list"

definition Map_has :: "('k, 'v) Map \<Rightarrow> 'k \<Rightarrow> bool" where
  "Map_has m k = (k \<in> set (map fst m))"

definition Map_get :: "('k, 'v) Map \<Rightarrow> 'k \<Rightarrow> 'v option" where
  "Map_get m k = map_of m k"

fun Map_set :: "'k \<Rightarrow> 'v \<Rightarrow> ('k, 'v) Map \<Rightarrow> ('k, 'v) Map" where
  "Map_set k v [] = [(k, v)]"
| "Map_set k v (e # m) = (if fst e = k then (k, v) # m else e # Map_set k v m)"

definition Map_keys :: "('k, 'v) Map \<Rightarrow> 'k list" where
  "Map_keys m = map fst m"

definition Map_values :: "('k, 'v) Map \<Rightarrow> 'v list" where
  "Map_values m = map snd m"

definition Map_size :: "('k, 'v) Map \<Rightarrow> nat" where
  "Map_size m = length m"

record CannabinoidProfile =
  batchId :: string
  batchName :: string
  cannabinoids :: "(string, number) Map"
  totalCannabinoids :: number

text \<open>
  The categorical data of Power BI. A column object is represented by its
  \<^verbatim>\<open>values\<close> array (its \<^verbatim>\<open>source\<close> is never read). A category cell is a string or
  a number by its declared type; the model admits any value there, so that a cell on
  which \<^verbatim>\<open>String\<close> raises is an input too. A value cell is a number or \<^verbatim>\<open>null\<close>
  (\<open>None\<close>), as declared. The parser tests
  whether \<^verbatim>\<open>data\<close>, \<^verbatim>\<open>data.categories\<close> and \<^verbatim>\<open>data.values\<close> are there, so each
  of the three may be missing. The field \<^verbatim>\<open>values\<close> of the data is \<open>value_columns\<close>
  here.
\<close>

record PowerBICategoricalData =
  categories :: "jsval list list option"
  value_columns :: "number option list list option"

record CDESParsedData =
  profiles :: "CannabinoidProfile list"
  parseMode :: string
  recordsProcessed :: nat

text \<open>\<^verbatim>\<open>xs[i]\<close>: \<^verbatim>\<open>undefined\<close> (\<open>None\<close>) beyond the end of the array.\<close>

definition index_js :: "'a list \<Rightarrow> nat \<Rightarrow> 'a option" where
  "index_js xs i = (if i < length xs then Some (xs ! i) else None)"

text \<open>\<^verbatim>\<open>columns[i]?.values || []\<close>\<close>

definition column_values :: "'a list list \<Rightarrow> nat \<Rightarrow> 'a list" where
  "column_values columns i = (case index_js columns i of Some c \<Rightarrow> c | None \<Rightarrow> [])"

text \<open>
  \<^verbatim>\<open>Number(cell) || 0\<close> for a cell read from a value column: \<^verbatim>\<open>undefined\<close> gives
  \<^verbatim>\<open>NaN\<close> and \<^verbatim>\<open>null\<close> gives 0, and both are falsy.
\<close>

definition Number_or_0 :: "number option option \<Rightarrow> number" where
  "Number_or_0 cell = (case cell of Some (Some x) \<Rightarrow> x | _ \<Rightarrow> 0)"

text \<open>\<^verbatim>\<open>Array.from(m.values()).reduce((sum, val) => sum + val, 0)\<close>\<close>

definition sum_values :: "(string, number) Map \<Rightarrow> number" where
  "sum_values m = foldl (\<lambda>sum val. sum + val) 0 (Map_values m)"

section \<open>The parser\<close>

text \<open>
  The state of both row loops: the map \<^verbatim>\<open>profiles\<close> (\<open>profilesMap\<close>), the map
  \<^verbatim>\<open>profileNames\<close> and the counter \<^verbatim>\<open>recordsProcessed\<close> (\<open>processed\<close>). A profile is a \<^verbatim>\<open>Map\<close> object that the loop
  changes through the reference it got from \<^verbatim>\<open>profiles\<close>; here the changed map is
  stored back under its batch id, which leaves the position of the batch as it is.
\<close>

type_synonym parser_state =
  "(string, (string, number) Map) Map \<times> (string, string) Map \<times> nat"

definition ensure_profile ::
  "string \<Rightarrow> (string, (string, number) Map) Map \<times> (string, string) Map
     \<Rightarrow> (string, (string, number) Map) Map \<times> (string, string) Map" where
  "ensure_profile bid pn =
     (case pn of (profilesMap, profileNames) \<Rightarrow>
        if \<not> Map_has profilesMap bid
        then (Map_set bid [] profilesMap, Map_set bid bid profileNames)
        else (profilesMap, profileNames))"

definition get_profile :: "(string, (string, number) Map) Map \<Rightarrow> string \<Rightarrow> (string, number) Map" where
  "get_profile profilesMap bid = (case Map_get profilesMap bid of Some m \<Rightarrow> m | None \<Rightarrow> [])"

text \<open>
  A loop over row indices whose body may raise: the exception ends the loop and leaves
  the function.
\<close>

fun for_rows :: "(nat \<Rightarrow> 's \<Rightarrow> error + 's) \<Rightarrow> nat list \<Rightarrow> 's \<Rightarrow> error + 's" where
  "for_rows body [] st = Inr st"
| "for_rows body (i # rows) st =
     (case body i st of Inl e \<Rightarrow> Inl e | Inr st' \<Rightarrow> for_rows body rows st')"

text \<open>
  The body of the long-form loop: the two calls of \<^verbatim>\<open>String\<close>, either of which may
  raise, and then the part that cannot (\<open>standard_store\<close>).
\<close>

definition standard_store ::
  "number option list \<Rightarrow> nat \<Rightarrow> string \<Rightarrow> string \<Rightarrow> parser_state \<Rightarrow> parser_state" where
  "standard_store percentages i bid cannabinoidName st =
     (case st of (profilesMap, profileNames, processed) \<Rightarrow>
        let percentage = Number_or_0 (index_js percentages i);
            pn = ensure_profile bid (profilesMap, profileNames);
            profile = get_profile (fst pn) bid;
            displayName = getCannabioidDisplayName cannabinoidName;
            profilesMap' = (if percentage > 0
                            then Map_set bid (Map_set displayName percentage profile) (fst pn)
                            else fst pn)
        in (profilesMap', snd pn, processed + 1))"

definition standard_row ::
  "(number \<Rightarrow> string) \<Rightarrow> jsval list \<Rightarrow> jsval list \<Rightarrow> number option list \<Rightarrow> nat
     \<Rightarrow> parser_state \<Rightarrow> error + parser_state" where
  "standard_row fmt batchIds cannabinoidNames percentages i st =
     (case String_js fmt (batchIds ! i) of
        Inl e \<Rightarrow> Inl e
      | Inr bid \<Rightarrow>
          (case String_js fmt (cannabinoidNames ! i) of
             Inl e \<Rightarrow> Inl e
           | Inr cannabinoidName \<Rightarrow> Inr (standard_store percentages i bid cannabinoidName st)))"

text \<open>The loop that turns the map of profiles into the array of results.\<close>

definition make_profile :: "(string, string) Map \<Rightarrow> string \<times> (string, number) Map \<Rightarrow> CannabinoidProfile" where
  "make_profile profileNames e =
     \<lparr>batchId = fst e,
      batchName = (case Map_get profileNames (fst e) of
                     Some n \<Rightarrow> if n \<noteq> [] then n else fst e
                   | None \<Rightarrow> fst e),
      cannabinoids = snd e,
      totalCannabinoids = sum_values (snd e)\<rparr>"

definition parseStandardStructure :: "(number \<Rightarrow> string) \<Rightarrow> PowerBICategoricalData \<Rightarrow> error + CDESParsedData" where
  "parseStandardStructure fmt data =
     (case categories data of
        None \<Rightarrow> Inl TypeError
      | Some cats \<Rightarrow>
          (case value_columns data of
             None \<Rightarrow> Inl TypeError
           | Some vals \<Rightarrow>
               let batchIds = column_values cats 0;
                   cannabinoidNames = column_values cats 1;
                   percentages = column_values vals 0
               in (case for_rows (standard_row fmt batchIds cannabinoidNames percentages)
                          [0 ..< min (length batchIds) (length cannabinoidNames)] ([], [], 0) of
                     Inl e \<Rightarrow> Inl e
                   | Inr st \<Rightarrow>
                       Inr \<lparr>profiles = map (make_profile (fst (snd st))) (fst st),
                            parseMode = ''standard'',
                            recordsProcessed = snd (snd st)\<rparr>)))"

definition cdesColumns :: "string list" where
  "cdesColumns = [''THC'', ''CBD'', ''CBN'', ''CBG'', ''CBC'', ''THCV'', ''CBDV'', ''THCA'', ''CBDA'']"

definition cdes_cell :: "number option list list \<Rightarrow> nat \<Rightarrow> nat \<Rightarrow> (string, number) Map \<Rightarrow> (string, number) Map" where
  "cdes_cell vals i colIdx profile =
     (let valueArray = column_values vals colIdx;
          percentage = Number_or_0 (index_js valueArray i)
      in if percentage > 0 then Map_set (cdesColumns ! colIdx) percentage profile else profile)"

text \<open>
  The body of the wide-form loop: the call of \<^verbatim>\<open>String\<close>, which may raise, and then
  the part that cannot (\<open>cdes_store\<close>).
\<close>

definition cdes_store ::
  "number option list list \<Rightarrow> nat \<Rightarrow> string \<Rightarrow> parser_state \<Rightarrow> parser_state" where
  "cdes_store vals i bid st =
     (case st of (profilesMap, profileNames, processed) \<Rightarrow>
        let pn = ensure_profile bid (profilesMap, profileNames);
            profile = get_profile (fst pn) bid;
            profile' = fold (cdes_cell vals i)
                         [0 ..< min (length cdesColumns) (length vals)] profile
        in (Map_set bid profile' (fst pn), snd pn, processed + 1))"

definition cdes_row ::
  "(number \<Rightarrow> string) \<Rightarrow> jsval list \<Rightarrow> number option list list \<Rightarrow> nat
     \<Rightarrow> parser_state \<Rightarrow> error + parser_state" where
  "cdes_row fmt batchIds vals i st =
     (case String_js fmt (batchIds ! i) of
        Inl e \<Rightarrow> Inl e
      | Inr bid \<Rightarrow> Inr (cdes_store vals i bid st))"

text \<open>
  \<^verbatim>\<open>data.values.length\<close> is read in the head of the inner loop, that is, once a row
  exists: with \<^verbatim>\<open>data.values\<close> missing that read raises a \<^verbatim>\<open>TypeError\<close>.
\<close>

definition parseCDESStructure :: "(number \<Rightarrow> string) \<Rightarrow> PowerBICategoricalData \<Rightarrow> error + CDESParsedData" where
  "parseCDESStructure fmt data =
     (case categories data of
        None \<Rightarrow> Inl TypeError
      | Some cats \<Rightarrow>
          let batchIds = column_values cats 0 in
          (case value_columns data of
             None \<Rightarrow>
               if batchIds = []
               then Inr \<lparr>profiles = [], parseMode = ''cdes'', recordsProcessed = 0\<rparr>
               else Inl TypeError
           | Some vals \<Rightarrow>
               (case for_rows (cdes_row fmt batchIds vals) [0 ..< length batchIds] ([], [], 0) of
                  Inl e \<Rightarrow> Inl e
                | Inr st \<Rightarrow>
                    Inr \<lparr>profiles = map (make_profile (fst (snd st))) (fst st),
                         parseMode = ''cdes'',
                         recordsProcessed = snd (snd st)\<rparr>)))"

definition unknown_result :: CDESParsedData where
  "unknown_result = \<lparr>profiles = [], parseMode = ''unknown'', recordsProcessed = 0\<rparr>"

text \<open>
  \<^verbatim>\<open>parseDataView\<close>: the standard structure is tried first, the CDES structure second;
  an exception of either leaves \<^verbatim>\<open>parseDataView\<close> as it is raised.
\<close>

definition try_cdes :: "(number \<Rightarrow> string) \<Rightarrow> PowerBICategoricalData \<Rightarrow> jsval list list \<Rightarrow> error + CDESParsedData" where
  "try_cdes fmt data cats =
     (if length cats \<ge> 1 \<and> value_columns data \<noteq> None
      then (case parseCDESStructure fmt data of
              Inl e \<Rightarrow> Inl e
            | Inr cdesResult \<Rightarrow>
                if length (profiles cdesResult) > 0 then Inr cdesResult else Inr unknown_result)
      else Inr unknown_result)"

definition parseDataView :: "(number \<Rightarrow> string) \<Rightarrow> PowerBICategoricalData option \<Rightarrow> error + CDESParsedData" where
  "parseDataView fmt data_opt =
     (case data_opt of
        None \<Rightarrow> Inr unknown_result
      | Some data \<Rightarrow>
          (case categories data of
             None \<Rightarrow> Inr unknown_result
           | Some cats \<Rightarrow>
               if length cats = 0 then Inr unknown_result
               else if length cats \<ge> 2 \<and> (case value_columns data of None \<Rightarrow> False | Some vals \<Rightarrow> length vals > 0)
               then (case parseStandardStructure fmt data of
                       Inl e \<Rightarrow> Inl e
                     | Inr standardResult \<Rightarrow>
                         if length (profiles standardResult) > 0 then Inr standardResult
                         else try_cdes fmt data cats)
               else try_cdes fmt data cats))"

text \<open>
  \<^verbatim>\<open>parseBatchJSON\<close>: a record is read by property name; a missing property reads as
  \<^verbatim>\<open>undefined\<close>. The record itself may be \<^verbatim>\<open>null\<close> or \<^verbatim>\<open>undefined\<close> (\<open>None\<close>):
  then the first read, \<^verbatim>\<open>batch.id\<close>, raises a \<^verbatim>\<open>TypeError\<close>. The two calls of
  \<^verbatim>\<open>String\<close> may raise as well.
\<close>

type_synonym Record = "string \<Rightarrow> jsval"

definition cdesFields :: "string list" where
  "cdesFields = [''THC'', ''CBD'', ''CBN'', ''CBG'', ''CBC'', ''THCV'', ''CBDV'', ''THCA'', ''CBDA'']"

definition batch_field :: "Record \<Rightarrow> string \<Rightarrow> (string, number) Map \<Rightarrow> (string, number) Map" where
  "batch_field batch field cannabinoidsMap =
     (case js_or (batch (toLowerCase field)) (batch field) of
        JNum x \<Rightarrow> if x > 0 then Map_set field x cannabinoidsMap else cannabinoidsMap
      | _ \<Rightarrow> cannabinoidsMap)"

definition parseBatchJSON :: "(number \<Rightarrow> string) \<Rightarrow> Record option \<Rightarrow> error + CannabinoidProfile" where
  "parseBatchJSON fmt batch_arg =
     (case batch_arg of
        None \<Rightarrow> Inl TypeError
      | Some batch \<Rightarrow>
          (case String_js fmt (js_or (js_or (batch ''id'') (batch ''batchId'')) (JStr ''unknown'')) of
             Inl e \<Rightarrow> Inl e
           | Inr bid \<Rightarrow>
               let cannabinoidsMap = fold (batch_field batch) cdesFields []
               in (case String_js fmt (js_or (js_or (batch ''name'') (batch ''strain'')) (JStr bid)) of
                     Inl e \<Rightarrow> Inl e
                   | Inr name \<Rightarrow>
                       Inr \<lparr>batchId = bid,
                            batchName = name,
                            cannabinoids = cannabinoidsMap,
                            totalCannabinoids = sum_values cannabinoidsMap\<rparr>)))"

text \<open>
  \<^verbatim>\<open>batches.map((batch) => this.parseBatchJSON(batch))\<close>: the first record on which
  \<^verbatim>\<open>parseBatchJSON\<close> raises ends the \<^verbatim>\<open>map\<close>; an array that is \<^verbatim>\<open>null\<close> or
  \<^verbatim>\<open>undefined\<close> has no \<^verbatim>\<open>map\<close> to call.
\<close>

fun Array_map_raising :: "('a \<Rightarrow> error + 'b) \<Rightarrow> 'a list \<Rightarrow> error + 'b list" where
  "Array_map_raising f [] = Inr []"
| "Array_map_raising f (x # xs) =
     (case f x of
        Inl e \<Rightarrow> Inl e
      | Inr y \<Rightarrow> (case Array_map_raising f xs of Inl e \<Rightarrow> Inl e | Inr ys \<Rightarrow> Inr (y # ys)))"

definition parseBatchesJSON ::
  "(number \<Rightarrow> string) \<Rightarrow> Record option list option \<Rightarrow> error + CannabinoidProfile list" where
  "parseBatchesJSON fmt batches_arg =
     (case batches_arg of
        None \<Rightarrow> Inl TypeError
      | Some batches \<Rightarrow> Array_map_raising (parseBatchJSON fmt) batches)"

section \<open>The analyzer\<close>

text \<open>\<^verbatim>\<open>new Set(xs)\<close>, in iteration order: the first occurrence of each element.\<close>

definition Set_from :: "'a list \<Rightarrow> 'a list" where
  "Set_from xs = fold (\<lambda>x s. if x \<in> set s then s else s @ [x]) xs []"

text \<open>\<^verbatim>\<open>m.get(key) || 0\<close>\<close>

definition get_or_0 :: "(string, number) Map \<Rightarrow> string \<Rightarrow> number" where
  "get_or_0 m key = (case Map_get m key of Some v \<Rightarrow> v | None \<Rightarrow> 0)"

definition calculateEuclideanDistance :: "(string, number) Map \<Rightarrow> (string, number) Map \<Rightarrow> number" where
  "calculateEuclideanDistance profile1 profile2 =
     (let allKeys = Set_from (Map_keys profile1 @ Map_keys profile2);
          sumSquares = fold (\<lambda>key sumSquares. sumSquares + (get_or_0 profile1 key - get_or_0 profile2 key) ^ 2)
                         allKeys 0
      in sqrt sumSquares)"

text \<open>
  \<^verbatim>\<open>Math.exp\<close> on doubles. The least positive double is \<open>2 ^ - 1074\<close>, and a result
  below half of it is rounded to 0: the exponential underflows. This is the one effect of
  rounding that the model has; a result that does not underflow is left as the real
  number it is.
\<close>

definition underflow_bound :: number where
  "underflow_bound = 1 / 2 ^ 1075"

definition Math_exp :: "number \<Rightarrow> number" where
  "Math_exp x = (if exp x < underflow_bound then 0 else exp x)"

text \<open>
  The expression \<^verbatim>\<open>Math.max(0, Math.min(100, 100 * Math.exp(-distance / 10)))\<close>, which
  \<^verbatim>\<open>compareProfiles\<close> and \<^verbatim>\<open>findSimilarProfiles\<close> both contain.
\<close>

definition similarity_of :: "number \<Rightarrow> number" where
  "similarity_of d = max 0 (min 100 (100 * Math_exp (- d / 10)))"

record Difference =
  val1 :: number
  val2 :: number
  delta :: number

record ComparisonResult =
  profile1 :: CannabinoidProfile
  profile2 :: CannabinoidProfile
  cmp_distance :: number
  cmp_similarity :: number
  differences :: "(string, Difference) Map"

definition difference_step ::
  "(string, number) Map \<Rightarrow> (string, number) Map \<Rightarrow> string \<Rightarrow> (string, Difference) Map \<Rightarrow> (string, Difference) Map" where
  "difference_step m1 m2 key acc =
     (let v1 = get_or_0 m1 key; v2 = get_or_0 m2 key
      in if v1 \<noteq> v2 then Map_set key \<lparr>val1 = v1, val2 = v2, delta = v2 - v1\<rparr> acc else acc)"

definition compareProfiles :: "CannabinoidProfile \<Rightarrow> CannabinoidProfile \<Rightarrow> ComparisonResult" where
  "compareProfiles p1 p2 =
     (let d = calculateEuclideanDistance (cannabinoids p1) (cannabinoids p2);
          s = max 0 (min 100 (100 * Math_exp (- d / 10)));
          allKeys = Set_from (Map_keys (cannabinoids p1) @ Map_keys (cannabinoids p2));
          dmap = fold (difference_step (cannabinoids p1) (cannabinoids p2)) allKeys []
      in \<lparr>profile1 = p1, profile2 = p2, cmp_distance = d, cmp_similarity = s, differences = dmap\<rparr>)"

text \<open>
  The objects of \<^verbatim>\<open>findSimilarProfiles\<close>: the first \<^verbatim>\<open>map\<close> builds objects with a
  profile, a distance and a similarity, the last one adds the rank.
\<close>

record Scored =
  profile :: CannabinoidProfile
  distance :: number
  similarity :: number

record SimilarityResult = Scored +
  rank :: number

text \<open>
  \<^verbatim>\<open>Array.prototype.sort\<close> with a comparator. The language requires the sort to be
  stable; insertion from the right is such a sort: an element goes in front of the first
  element that the comparator does not put before it.
\<close>

fun insert_by :: "('a \<Rightarrow> 'a \<Rightarrow> number) \<Rightarrow> 'a \<Rightarrow> 'a list \<Rightarrow> 'a list" where
  "insert_by cmp x [] = [x]"
| "insert_by cmp x (y # ys) = (if cmp x y \<le> 0 then x # y # ys else y # insert_by cmp x ys)"

definition Array_sort :: "('a \<Rightarrow> 'a \<Rightarrow> number) \<Rightarrow> 'a list \<Rightarrow> 'a list" where
  "Array_sort cmp xs = foldr (insert_by cmp) xs []"

text \<open>
  \<^verbatim>\<open>xs.slice(0, end)\<close>: \<open>end\<close> is truncated towards zero to an integer; a negative
  one counts from the end of the array.
\<close>

definition Array_slice_0 :: "number \<Rightarrow> 'a list \<Rightarrow> 'a list" where
  "Array_slice_0 end_arg xs =
     (let len = int (length xs);
          relativeEnd = (if end_arg < 0 then \<lceil>end_arg\<rceil> else \<lfloor>end_arg\<rfloor>);
          final = (if relativeEnd < 0 then max (len + relativeEnd) 0 else min relativeEnd len)
      in take (nat final) xs)"

definition score_candidate :: "CannabinoidProfile \<Rightarrow> CannabinoidProfile \<Rightarrow> Scored" where
  "score_candidate targetProfile p =
     (let d = calculateEuclideanDistance (cannabinoids targetProfile) (cannabinoids p);
          s = max 0 (min 100 (100 * Math_exp (- d / 10)))
      in \<lparr>profile = p, distance = d, similarity = s\<rparr>)"

definition with_rank :: "nat \<times> Scored \<Rightarrow> SimilarityResult" where
  "with_rank ir =
     \<lparr>profile = profile (snd ir), distance = distance (snd ir), similarity = similarity (snd ir),
      rank = real (fst ir) + 1\<rparr>"

text \<open>A parameter that the caller leaves out is \<open>None\<close> and takes its default.\<close>

definition findSimilarProfiles ::
  "CannabinoidProfile \<Rightarrow> CannabinoidProfile list \<Rightarrow> number option \<Rightarrow> number option \<Rightarrow> SimilarityResult list" where
  "findSimilarProfiles targetProfile allProfiles limit_arg minSimilarity_arg =
     (let limit = (case limit_arg of None \<Rightarrow> 5 | Some l \<Rightarrow> l);
          minSimilarity = (case minSimilarity_arg of None \<Rightarrow> 50 | Some m \<Rightarrow> m)
      in map with_rank
           (enumerate 0
             (Array_slice_0 limit
               (Array_sort (\<lambda>a b. similarity b - similarity a)
                 (filter (\<lambda>result. similarity result \<ge> minSimilarity
                                    \<and> batchId (profile result) \<noteq> batchId targetProfile)
                   (map (score_candidate targetProfile) allProfiles))))))"

record Completeness =
  score :: number
  coverage :: number
  message :: string

definition scoreProfileCompleteness :: "CannabinoidProfile \<Rightarrow> Completeness" where
  "scoreProfileCompleteness p =
     (let detectedCount = Map_size (cannabinoids p);
          maxCannabinoids = 9;
          cov = (real detectedCount / maxCannabinoids) * 100;
          score0 = cov;
          score1 = (if detectedCount \<ge> 7 then score0 + 20 else score0);
          score2 = (if totalCannabinoids p > 10 then score1 + 10 else score1);
          score3 = min 100 score2;
          msg = (if cov < 30 then ''Incomplete profile - limited cannabinoid data''
                 else if cov < 60 then ''Partial profile - some cannabinoid data''
                 else if cov < 90 then ''Good profile - most cannabinoids detected''
                 else ''Complete profile - all major cannabinoids detected'')
      in \<lparr>score = score3, coverage = cov, message = msg\<rparr>)"

text \<open>
  \<^verbatim>\<open>classifyStrain\<close>. The rendering \<^verbatim>\<open>x.toFixed(1)\<close> of a number is the parameter
  \<open>toFixed1\<close>.
\<close>

record Classification =
  strain_type :: string
  thcContent :: string
  cbdContent :: string
  ratio :: string

definition classifyStrain :: "(number \<Rightarrow> string) \<Rightarrow> CannabinoidProfile \<Rightarrow> Classification" where
  "classifyStrain toFixed1 p =
     (let thc = get_or_0 (cannabinoids p) ''THC'';
          cbd = get_or_0 (cannabinoids p) ''CBD'';
          ty = (if thc > cbd * 2 then ''THC-Dominant''
                else if cbd > thc * 2 then ''CBD-Dominant''
                else if thc > 0 \<or> cbd > 0 then ''Balanced''
                else ''Unknown'');
          thcC = (if thc > 20 then ''High''
                  else if thc > 10 then ''Moderate''
                  else if thc > 0.5 then ''Low''
                  else ''Trace'');
          cbdC = (if cbd > 15 then ''High''
                  else if cbd > 7 then ''Moderate''
                  else if cbd > 0.5 then ''Low''
                  else ''Trace'');
          rat = (if thc > 0 \<and> cbd > 0
                 then (let ratioParts = max thc cbd / min thc cbd
                       in if thc > cbd then toFixed1 ratioParts @ '':1 THC:CBD''
                          else toFixed1 ratioParts @ '':1 CBD:THC'')
                 else if thc > 0 then toFixed1 thc @ ''% THC''
                 else if cbd > 0 then toFixed1 cbd @ ''% CBD''
                 else ''N/A'')
      in \<lparr>strain_type = ty, thcContent = thcC, cbdContent = cbdC, ratio = rat\<rparr>)"

section \<open>The name resolver as the specification words it\<close>

text \<open>
  The reference algorithm of the specification, written from its three steps: the
  normalization as a composition of list operations, the registry as the list of the nine
  codes, and the scan as a search for the first code that is a contiguous part of the
  normalized label or has the normalized label as a contiguous part.
\<close>

definition spec_normalize :: "string \<Rightarrow> string" where
  "spec_normalize rawLabel =
     take 5 (filter (\<lambda>c. c \<noteq> CHR ''%'')
       (filter (\<lambda>c. \<not> isWhiteSpace c \<and> c \<noteq> CHR ''-'' \<and> c \<noteq> CHR ''_'')
         (trim (toUpperCase rawLabel))))"

definition spec_registry :: "string list" where
  "spec_registry = [''THC'', ''CBD'', ''CBN'', ''CBG'', ''CBC'', ''THCV'', ''CBDV'', ''CBDA'', ''THCA'']"

definition spec_resolve :: "string \<Rightarrow> string" where
  "spec_resolve rawLabel =
     (case find (\<lambda>K. sublist K (spec_normalize rawLabel) \<or> sublist (spec_normalize rawLabel) K) spec_registry of
        Some K \<Rightarrow> K
      | None \<Rightarrow> rawLabel)"

section \<open>Notions used in the statements\<close>

text \<open>
  A profile whose total is the sum of its measurements: every key stands once in the map,
  so that the stored values are the values of a mapping, and the total is their sum,
  which is also the sum over the keys of the value that the mapping gives.
\<close>

definition total_is_sum :: "CannabinoidProfile \<Rightarrow> bool" where
  "total_is_sum p =
     (distinct (Map_keys (cannabinoids p))
      \<and> totalCannabinoids p = sum_list (Map_values (cannabinoids p))
      \<and> totalCannabinoids p = (\<Sum>k \<in> set (Map_keys (cannabinoids p)). the (Map_get (cannabinoids p) k)))"

text \<open>
  The wide form as the specification words it. \<open>wide_cell vals j i\<close> is the number in
  row \<open>i\<close> of value column \<open>j\<close>, and 0 where there is none. \<open>wide_stored ids k vals b j\<close>
  is what the first \<open>k\<close> rows leave for the batch \<open>b\<close> in column \<open>j\<close>: of the cells of
  the rows of that batch, the last one that is greater than 0, and nothing when no such
  cell is greater than 0.
\<close>

definition wide_cell :: "number option list list \<Rightarrow> nat \<Rightarrow> nat \<Rightarrow> number" where
  "wide_cell vals j i =
     (case index_js vals j of
        None \<Rightarrow> 0
      | Some col \<Rightarrow> (case index_js col i of Some (Some x) \<Rightarrow> x | _ \<Rightarrow> 0))"

definition wide_stored :: "string list \<Rightarrow> nat \<Rightarrow> number option list list \<Rightarrow> string \<Rightarrow> nat \<Rightarrow> number option" where
  "wide_stored ids k vals b j =
     (let stored = filter (\<lambda>x. x > 0) (map (wide_cell vals j) (filter (\<lambda>i. ids ! i = b) [0 ..< k]))
      in if stored = [] then None else Some (last stored))"

text \<open>
  A tabular input on whose category cells \<^verbatim>\<open>String\<close> does not raise: no cell of the
  first two category columns, the only ones that are read, is an object that cannot be
  converted. Every input whose cells are strings and numbers is of this kind.
\<close>

definition cells_convert :: "PowerBICategoricalData option \<Rightarrow> bool" where
  "cells_convert data_arg =
     (case data_arg of
        None \<Rightarrow> True
      | Some data \<Rightarrow>
          (case categories data of
             None \<Rightarrow> True
           | Some cats \<Rightarrow>
               JObject None \<notin> set (column_values cats 0)
               \<and> JObject None \<notin> set (column_values cats 1)))"

section \<open>Concrete inputs\<close>

text \<open>
  Renderings for the places where a concrete one has to be named; the inputs below hold
  no number where a string is asked for, so that no number is ever rendered.
\<close>

definition render_blank :: "number \<Rightarrow> string" where
  "render_blank x = []"

definition toFixed_blank :: "number \<Rightarrow> string" where
  "toFixed_blank x = []"

definition long_example :: PowerBICategoricalData where
  "long_example =
     \<lparr>categories = Some [[JStr ''b1'', JStr ''b1'', JStr ''b1''],
                         [JStr ''THC'', JStr ''CBD'', JStr ''CBN'']],
      value_columns = Some [[Some 20, Some 15, Some 2]]\<rparr>"

definition wide_example :: PowerBICategoricalData where
  "wide_example =
     \<lparr>categories = Some [[JStr ''b1'']],
      value_columns = Some [[Some 20], [Some 15], [Some 2], [Some 1]]\<rparr>"

definition acid_varin_example :: PowerBICategoricalData where
  "acid_varin_example =
     \<lparr>categories = Some [[JStr ''b1'', JStr ''b1'', JStr ''b2'', JStr ''b2''],
                         [JStr ''THCA'', JStr ''CBDA'', JStr ''THCV'', JStr ''CBDV'']],
      value_columns = Some [[Some 18, Some 3, Some 1, Some 2]]\<rparr>"

definition profile_20_10 :: CannabinoidProfile where
  "profile_20_10 =
     \<lparr>batchId = ''b1'', batchName = ''b1'',
      cannabinoids = [(''THC'', 20), (''CBD'', 10)], totalCannabinoids = 30\<rparr>"

definition profile_b2 :: CannabinoidProfile where
  "profile_b2 =
     \<lparr>batchId = ''b2'', batchName = ''b2'',
      cannabinoids = [(''THC'', 20), (''CBD'', 10)], totalCannabinoids = 30\<rparr>"

definition profile_b3 :: CannabinoidProfile where
  "profile_b3 =
     \<lparr>batchId = ''b3'', batchName = ''b3'',
      cannabinoids = [(''CBD'', 10), (''THC'', 20)], totalCannabinoids = 30\<rparr>"

definition record_example :: Record where
  "record_example key =
     (if key = ''id'' then JStr ''b123''
      else if key = ''name'' then JStr ''X''
      else if key = ''thc'' then JNum 20
      else if key = ''cbd'' then JNum 15
      else if key = ''cbn'' then JNum 2
      else JUndefined)"

definition no_categories_example :: PowerBICategoricalData where
  "no_categories_example = \<lparr>categories = Some [], value_columns = Some [[Some 1]]\<rparr>"

definition object_id_record :: Record where
  "object_id_record key = (if key = ''id'' then JObject None else JUndefined)"

definition object_cell_example :: PowerBICategoricalData where
  "object_cell_example = \<lparr>categories = Some [[JObject None]], value_columns = Some [[Some 1]]\<rparr>"

definition profile_empty :: CannabinoidProfile where
  "profile_empty =
     \<lparr>batchId = ''b0'', batchName = ''b0'', cannabinoids = [], totalCannabinoids = 0\<rparr>"

definition profile_8000 :: CannabinoidProfile where
  "profile_8000 =
     \<lparr>batchId = ''b8'', batchName = ''b8'',
      cannabinoids = [(''THC'', 8000)], totalCannabinoids = 8000\<rparr>"

definition profile_9000 :: CannabinoidProfile where
  "profile_9000 =
     \<lparr>batchId = ''b9'', batchName = ''b9'',
      cannabinoids = [(''THC'', 9000)], totalCannabinoids = 9000\<rparr>"

section \<open>Basic facts\<close>

subsection \<open>Maps\<close>

lemma map_of_Map_set: "map_of (Map_set k v m) = (map_of m)(k \<mapsto> v)"
  by (induction m) (auto simp: fun_eq_iff)

lemma keys_Map_set:
  "map fst (Map_set k v m) = (if k \<in> set (map fst m) then map fst m else map fst m @ [k])"
  by (induction m) auto

lemma distinct_Map_set: "distinct (map fst m) \<Longrightarrow> distinct (map fst (Map_set k v m))"
  by (simp add: keys_Map_set)

lemma set_Map_set: "set (Map_set k v m) \<subseteq> insert (k, v) (set m)"
  by (induction m) auto

lemma sum_values_sum_list: "sum_values m = sum_list (Map_values m)"
proof -
  have "foldl (\<lambda>sum val. sum + val) a xs = a + sum_list xs" for a :: real and xs
    by (induction xs arbitrary: a) auto
  then show ?thesis by (simp add: sum_values_def)
qed

lemma sum_list_values_keys:
  "distinct (map fst m) \<Longrightarrow> sum_list (map snd m) = (\<Sum>k \<in> set (map fst m). the (map_of m k))"
proof (induction m)
  case Nil
  then show ?case by simp
next
  case (Cons e m)
  obtain k v where e: "e = (k, v)" by (cases e)
  from Cons.prems have k: "k \<notin> set (map fst m)" and d: "distinct (map fst m)"
    by (auto simp: e)
  have "(\<Sum>x \<in> set (map fst m). the (map_of (e # m) x)) = (\<Sum>x \<in> set (map fst m). the (map_of m x))"
    using k by (intro sum.cong) (auto simp: e)
  then show ?case using k d Cons.IH by (simp add: e)
qed

subsection \<open>Evaluation of the concrete inputs\<close>

lemma parse_long_example:
  "parseDataView fmt (Some long_example) =
     Inr \<lparr>profiles = [\<lparr>batchId = ''b1'', batchName = ''b1'',
                        cannabinoids = [(''THC'', 20), (''CBD'', 15), (''CBN'', 2)],
                        totalCannabinoids = 37\<rparr>],
          parseMode = ''standard'', recordsProcessed = 3\<rparr>"
  unfolding long_example_def by code_simp

lemma parse_wide_example:
  "parseDataView fmt (Some wide_example) =
     Inr \<lparr>profiles = [\<lparr>batchId = ''b1'', batchName = ''b1'',
                        cannabinoids = [(''THC'', 20), (''CBD'', 15), (''CBN'', 2), (''CBG'', 1)],
                        totalCannabinoids = 38\<rparr>],
          parseMode = ''cdes'', recordsProcessed = 1\<rparr>"
  unfolding wide_example_def by code_simp

lemma parse_record_example:
  "parseBatchJSON fmt (Some record_example) =
     Inr \<lparr>batchId = ''b123'', batchName = ''X'',
          cannabinoids = [(''THC'', 20), (''CBD'', 15), (''CBN'', 2)], totalCannabinoids = 37\<rparr>"
  by (simp add: parseBatchJSON_def record_example_def cdesFields_def batch_field_def js_or_def
      truthy_def String_js_def toLowerCase_def toLowerCase_char_def sum_values_def Map_values_def)

lemma underflow_bound_range: "0 < underflow_bound" and underflow_bound_le: "underflow_bound \<le> 1"
proof -
  show "0 < underflow_bound" unfolding underflow_bound_def by (rule divide_pos_pos) simp_all
  have "(1 :: real) \<le> 2 ^ 1075" by (rule one_le_power) simp
  then have "1 / (2 :: real) ^ 1075 \<le> 1 / 1" by (intro divide_left_mono) simp_all
  then show "underflow_bound \<le> 1" unfolding underflow_bound_def by (simp only: div_by_1)
qed

lemma Math_exp_0: "Math_exp 0 = 1"
  using underflow_bound_le by (simp add: Math_exp_def)

lemma distance_examples:
  "calculateEuclideanDistance [(''THC'', 20), (''CBD'', 10)] [(''THC'', 20), (''CBD'', 10)] = 0"
  "calculateEuclideanDistance [(''THC'', 20), (''CBD'', 10)] [(''CBD'', 10), (''THC'', 20)] = 0"
  by (simp_all add: calculateEuclideanDistance_def Set_from_def Map_keys_def get_or_0_def Map_get_def)

lemma score_examples:
  "score_candidate profile_20_10 profile_20_10 = \<lparr>profile = profile_20_10, distance = 0, similarity = 100\<rparr>"
  "score_candidate profile_20_10 profile_b2 = \<lparr>profile = profile_b2, distance = 0, similarity = 100\<rparr>"
  "score_candidate profile_20_10 profile_b3 = \<lparr>profile = profile_b3, distance = 0, similarity = 100\<rparr>"
  by (simp_all add: score_candidate_def profile_20_10_def profile_b2_def profile_b3_def
      distance_examples Math_exp_0)

lemma batchId_examples:
  "batchId profile_20_10 = ''b1''" "batchId profile_b2 = ''b2''" "batchId profile_b3 = ''b3''"
  by (simp_all add: profile_20_10_def profile_b2_def profile_b3_def)

lemma ceiling_minus_one_real: "\<lceil>- 1 :: real\<rceil> = - 1"
  by (simp add: ceiling_eq_iff)

lemma findSimilar_example_negative_limit:
  "findSimilarProfiles profile_20_10 [profile_20_10, profile_b2, profile_b3] (Some (- 1)) (Some 0) =
     [\<lparr>profile = profile_b2, distance = 0, similarity = 100, rank = 1\<rparr>]"
  by (simp add: findSimilarProfiles_def score_examples batchId_examples Array_sort_def
      Array_slice_0_def with_rank_def enumerate_eq_zip ceiling_minus_one_real)

lemma findSimilar_example_defaults:
  "findSimilarProfiles profile_20_10 [profile_20_10, profile_b2, profile_b3] None None =
     [\<lparr>profile = profile_b2, distance = 0, similarity = 100, rank = 1\<rparr>,
      \<lparr>profile = profile_b3, distance = 0, similarity = 100, rank = 2\<rparr>]"
  by (simp add: findSimilarProfiles_def score_examples batchId_examples Array_sort_def
      Array_slice_0_def with_rank_def enumerate_eq_zip)

section \<open>The total of a parsed profile\<close>

lemma total_is_sum_make_profile:
  "distinct (map fst (snd e)) \<Longrightarrow> total_is_sum (make_profile nm e)"
  by (simp add: total_is_sum_def make_profile_def sum_values_sum_list Map_keys_def Map_values_def
      Map_get_def sum_list_values_keys)

text \<open>Every map of measurements in the state of a row loop has distinct keys.\<close>

lemma get_profile_distinct:
  "\<forall>e \<in> set pm. distinct (map fst (snd e)) \<Longrightarrow> distinct (map fst (get_profile pm b))"
proof (cases "map_of pm b")
  case None
  then show ?thesis by (simp add: get_profile_def Map_get_def)
next
  case (Some mp)
  then have "(b, mp) \<in> set pm" by (rule map_of_SomeD)
  moreover assume "\<forall>e \<in> set pm. distinct (map fst (snd e))"
  ultimately have "distinct (map fst mp)" by fastforce
  then show ?thesis using Some by (simp add: get_profile_def Map_get_def)
qed

lemma ensure_profile_distinct:
  "\<forall>e \<in> set pm. distinct (map fst (snd e)) \<Longrightarrow>
   \<forall>e \<in> set (fst (ensure_profile b (pm, nm))). distinct (map fst (snd e))"
  using set_Map_set [of b "[]" pm] by (auto simp: ensure_profile_def)

lemma Map_set_profile_distinct:
  "\<forall>e \<in> set pm. distinct (map fst (snd e)) \<Longrightarrow> distinct (map fst mp) \<Longrightarrow>
   \<forall>e \<in> set (Map_set b mp pm). distinct (map fst (snd e))"
  using set_Map_set [of b mp pm] by auto

lemma for_rows_invariant:
  assumes "for_rows body rows st = Inr st'" and "P st"
    and "\<And>i s s'. body i s = Inr s' \<Longrightarrow> P s \<Longrightarrow> P s'"
  shows "P st'"
  using assms(1,2)
proof (induction rows arbitrary: st)
  case Nil
  then show ?case by simp
next
  case (Cons i rows)
  then obtain s where s: "body i st = Inr s" and rest: "for_rows body rows s = Inr st'"
    by (auto split: sum.splits)
  from assms(3) [OF s Cons.prems(2)] have "P s" .
  from Cons.IH [OF rest this] show ?case .
qed

lemma standard_store_distinct:
  assumes "\<forall>e \<in> set (fst st). distinct (map fst (snd e))"
  shows "\<forall>e \<in> set (fst (standard_store ps i bid nme st)). distinct (map fst (snd e))"
proof -
  obtain pm nm cnt where st: "st = (pm, nm, cnt)" by (cases st)
  have 1: "\<forall>e \<in> set (fst (ensure_profile bid (pm, nm))). distinct (map fst (snd e))"
    using assms st ensure_profile_distinct by simp
  then have 2: "distinct (map fst (get_profile (fst (ensure_profile bid (pm, nm))) bid))"
    by (rule get_profile_distinct)
  show ?thesis
    using 1 Map_set_profile_distinct [OF 1 distinct_Map_set [OF 2]]
    by (simp add: standard_store_def st Let_def)
qed

lemma standard_row_distinct:
  assumes "standard_row fmt bs ns ps i st = Inr st'"
    and "\<forall>e \<in> set (fst st). distinct (map fst (snd e))"
  shows "\<forall>e \<in> set (fst st'). distinct (map fst (snd e))"
proof -
  from assms(1) obtain bid nme where "st' = standard_store ps i bid nme st"
    by (auto simp: standard_row_def split: sum.splits)
  then show ?thesis using standard_store_distinct [OF assms(2)] by simp
qed

lemma standard_loop_distinct:
  assumes "for_rows (standard_row fmt bs ns ps) rows st = Inr st'"
    and "\<forall>e \<in> set (fst st). distinct (map fst (snd e))"
  shows "\<forall>e \<in> set (fst st'). distinct (map fst (snd e))"
  using assms(1,2)
  by (rule for_rows_invariant [where P = "\<lambda>s. \<forall>e \<in> set (fst s). distinct (map fst (snd e))"])
    (rule standard_row_distinct)

lemma cdes_cell_distinct:
  "distinct (map fst mp) \<Longrightarrow> distinct (map fst (cdes_cell vals i c mp))"
  by (simp add: cdes_cell_def Let_def distinct_Map_set)

lemma cdes_cells_distinct:
  "distinct (map fst mp) \<Longrightarrow> distinct (map fst (fold (cdes_cell vals i) cols mp))"
  by (induction cols arbitrary: mp) (auto simp: cdes_cell_distinct)

lemma cdes_store_distinct:
  assumes "\<forall>e \<in> set (fst st). distinct (map fst (snd e))"
  shows "\<forall>e \<in> set (fst (cdes_store vals i bid st)). distinct (map fst (snd e))"
proof -
  obtain pm nm cnt where st: "st = (pm, nm, cnt)" by (cases st)
  have 1: "\<forall>e \<in> set (fst (ensure_profile bid (pm, nm))). distinct (map fst (snd e))"
    using assms st ensure_profile_distinct by simp
  then have 2: "distinct (map fst (get_profile (fst (ensure_profile bid (pm, nm))) bid))"
    by (rule get_profile_distinct)
  show ?thesis
    using Map_set_profile_distinct [OF 1 cdes_cells_distinct [OF 2]]
    by (simp add: cdes_store_def st Let_def)
qed

lemma cdes_row_distinct:
  assumes "cdes_row fmt bs vals i st = Inr st'"
    and "\<forall>e \<in> set (fst st). distinct (map fst (snd e))"
  shows "\<forall>e \<in> set (fst st'). distinct (map fst (snd e))"
proof -
  from assms(1) obtain bid where "st' = cdes_store vals i bid st"
    by (auto simp: cdes_row_def split: sum.splits)
  then show ?thesis using cdes_store_distinct [OF assms(2)] by simp
qed

lemma cdes_loop_distinct:
  assumes "for_rows (cdes_row fmt bs vals) rows st = Inr st'"
    and "\<forall>e \<in> set (fst st). distinct (map fst (snd e))"
  shows "\<forall>e \<in> set (fst st'). distinct (map fst (snd e))"
  using assms(1,2)
  by (rule for_rows_invariant [where P = "\<lambda>s. \<forall>e \<in> set (fst s). distinct (map fst (snd e))"])
    (rule cdes_row_distinct)

lemma standard_total:
  assumes "parseStandardStructure fmt d = Inr r" and "p \<in> set (profiles r)"
  shows "total_is_sum p"
proof -
  from assms(1) obtain bs ns ps st
    where loop: "for_rows (standard_row fmt bs ns ps) [0 ..< min (length bs) (length ns)] ([], [], 0) = Inr st"
      and r: "profiles r = map (make_profile (fst (snd st))) (fst st)"
    by (fastforce simp: parseStandardStructure_def Let_def split: option.splits sum.splits)
  have "\<forall>e \<in> set (fst st). distinct (map fst (snd e))"
    using standard_loop_distinct [OF loop] by simp
  then show ?thesis using assms(2) r by (auto simp: total_is_sum_make_profile)
qed

lemma cdes_total:
  assumes "parseCDESStructure fmt d = Inr r" and "p \<in> set (profiles r)"
  shows "total_is_sum p"
proof (cases "profiles r = []")
  case True
  then show ?thesis using assms(2) by simp
next
  case False
  with assms(1) obtain bs vals st
    where loop: "for_rows (cdes_row fmt bs vals) [0 ..< length bs] ([], [], 0) = Inr st"
      and r: "profiles r = map (make_profile (fst (snd st))) (fst st)"
    by (fastforce simp: parseCDESStructure_def Let_def split: option.splits sum.splits if_splits)
  have "\<forall>e \<in> set (fst st). distinct (map fst (snd e))"
    using cdes_loop_distinct [OF loop] by simp
  then show ?thesis using assms(2) r by (auto simp: total_is_sum_make_profile)
qed

lemma dataView_cases:
  assumes "parseDataView fmt data = Inr r"
  shows "r = unknown_result \<or> (\<exists>d. data = Some d \<and> profiles r \<noteq> [] \<and>
           (parseStandardStructure fmt d = Inr r \<or> parseCDESStructure fmt d = Inr r))"
  using assms
  by (auto simp: parseDataView_def try_cdes_def split: option.splits if_splits sum.splits)

lemma dataView_total:
  assumes "parseDataView fmt data = Inr r" and "p \<in> set (profiles r)"
  shows "total_is_sum p"
  using dataView_cases [OF assms(1)] assms(2) standard_total cdes_total
  by (auto simp: unknown_result_def)

lemma batch_field_distinct:
  "distinct (map fst mp) \<Longrightarrow> distinct (map fst (batch_field batch f mp))"
  by (simp add: batch_field_def distinct_Map_set split: jsval.splits)

lemma batch_fields_distinct:
  "distinct (map fst mp) \<Longrightarrow> distinct (map fst (fold (batch_field batch) fs mp))"
  by (induction fs arbitrary: mp) (auto simp: batch_field_distinct)

lemma batch_total: "parseBatchJSON fmt batch = Inr p \<Longrightarrow> total_is_sum p"
  using batch_fields_distinct [of "[]" _ cdesFields]
  by (auto simp: parseBatchJSON_def Let_def total_is_sum_def sum_values_sum_list Map_keys_def
      Map_values_def Map_get_def sum_list_values_keys split: option.splits sum.splits)

lemma Array_map_raising_elements:
  "Array_map_raising f xs = Inr ys \<Longrightarrow> y \<in> set ys \<Longrightarrow> \<exists>x \<in> set xs. f x = Inr y"
proof (induction xs arbitrary: ys)
  case Nil
  then show ?case by simp
next
  case (Cons x xs)
  then obtain z zs where z: "f x = Inr z" and zs: "Array_map_raising f xs = Inr zs"
    and ys: "ys = z # zs"
    by (auto split: sum.splits)
  show ?case
  proof (cases "y = z")
    case True
    then show ?thesis using z by simp
  next
    case False
    then have "y \<in> set zs" using Cons.prems(2) ys by simp
    from Cons.IH [OF zs this] show ?thesis by auto
  qed
qed

lemma batches_total:
  assumes "parseBatchesJSON fmt batches = Inr ps" and "p \<in> set ps"
  shows "total_is_sum p"
proof -
  from assms(1) obtain bs where "Array_map_raising (parseBatchJSON fmt) bs = Inr ps"
    by (auto simp: parseBatchesJSON_def split: option.splits)
  from Array_map_raising_elements [OF this assms(2)] show ?thesis
    using batch_total by blast
qed

text \<open>
  C1. Every profile that a parse operation produces has a total equal to the sum of the
  values of its measurements: the profiles of \<^verbatim>\<open>parseDataView\<close>, those of the long-form
  parse \<^verbatim>\<open>parseStandardStructure\<close> and of the wide-form parse \<^verbatim>\<open>parseCDESStructure\<close>
  that it calls, the profile of the record parse \<^verbatim>\<open>parseBatchJSON\<close>, and the profiles of
  \<^verbatim>\<open>parseBatchesJSON\<close>.
\<close>

theorem parsed_profile_total_is_sum:
  "(\<forall>r. parseDataView fmt data = Inr r \<longrightarrow> (\<forall>p \<in> set (profiles r). total_is_sum p))
   \<and> (\<forall>r. parseStandardStructure fmt d = Inr r \<longrightarrow> (\<forall>p \<in> set (profiles r). total_is_sum p))
   \<and> (\<forall>r. parseCDESStructure fmt d = Inr r \<longrightarrow> (\<forall>p \<in> set (profiles r). total_is_sum p))
   \<and> (\<forall>p. parseBatchJSON fmt batch = Inr p \<longrightarrow> total_is_sum p)
   \<and> (\<forall>ps. parseBatchesJSON fmt batches = Inr ps \<longrightarrow> (\<forall>p \<in> set ps. total_is_sum p))"
  using dataView_total standard_total cdes_total batch_total batches_total
  by blast

theorem parsed_profile_total_is_sum_witness:
  "parseDataView render_blank (Some long_example) =
     Inr \<lparr>profiles = [\<lparr>batchId = ''b1'', batchName = ''b1'',
                        cannabinoids = [(''THC'', 20), (''CBD'', 15), (''CBN'', 2)],
                        totalCannabinoids = 37\<rparr>],
          parseMode = ''standard'', recordsProcessed = 3\<rparr>
   \<and> total_is_sum \<lparr>batchId = ''b1'', batchName = ''b1'',
                    cannabinoids = [(''THC'', 20), (''CBD'', 15), (''CBN'', 2)],
                    totalCannabinoids = 37\<rparr>
   \<and> parseBatchJSON render_blank (Some record_example) =
       Inr \<lparr>batchId = ''b123'', batchName = ''X'',
            cannabinoids = [(''THC'', 20), (''CBD'', 15), (''CBN'', 2)], totalCannabinoids = 37\<rparr>
   \<and> total_is_sum \<lparr>batchId = ''b123'', batchName = ''X'',
                    cannabinoids = [(''THC'', 20), (''CBD'', 15), (''CBN'', 2)],
                    totalCannabinoids = 37\<rparr>"
  using parsed_profile_total_is_sum [of render_blank "Some long_example" long_example
      "Some record_example" "None"]
    parse_long_example [of render_blank] parse_record_example [of render_blank]
  by simp

section \<open>The name resolver\<close>

lemma replace_class_filter: "replace_class cls s = filter (\<lambda>c. \<not> cls c) s"
  by (induction s) auto

lemma startsWith_prefix: "startsWith s t = prefix t s"
  by (induction s t rule: startsWith.induct) auto

lemma includes_js_sublist: "includes_js s t = sublist t s"
  by (induction s) (auto simp: startsWith_prefix sublist_Cons_right)

lemma displayName_loop_find:
  "displayName_loop keys n name =
     (case find (\<lambda>K. includes_js K n \<or> includes_js n K) keys of Some K \<Rightarrow> K | None \<Rightarrow> name)"
  by (induction keys) auto

lemma normalize_spec: "normalizeCannabioidName s = spec_normalize s"
  by (simp add: normalizeCannabioidName_def spec_normalize_def replace_class_filter substring_def)

lemma keys_registry: "Object_keys STANDARD_CANNABINOIDS = spec_registry"
  by (simp add: Object_keys_def STANDARD_CANNABINOIDS_def spec_registry_def)

text \<open>
  C2. For every raw label, \<^verbatim>\<open>getCannabioidDisplayName\<close> returns what the reference
  algorithm returns: the label is normalized (upper case, trimmed, white space, hyphens
  and underscores removed, percent signs removed, cut to five characters), the registry
  THC, CBD, CBN, CBG, CBC, THCV, CBDV, CBDA, THCA is scanned in this order for the first
  code that is a substring of the normalized label or has it as a substring, and a label
  that matches no code is returned unchanged.
\<close>

theorem resolver_is_reference_algorithm:
  "getCannabioidDisplayName rawLabel = spec_resolve rawLabel"
proof -
  have "(\<lambda>K. includes_js K (spec_normalize rawLabel) \<or> includes_js (spec_normalize rawLabel) K)
        = (\<lambda>K. sublist K (spec_normalize rawLabel) \<or> sublist (spec_normalize rawLabel) K)"
    by (auto simp: includes_js_sublist)
  then show ?thesis
    by (simp add: getCannabioidDisplayName_def spec_resolve_def displayName_loop_find
        normalize_spec keys_registry)
qed

section \<open>The dominance type at the boundary\<close>

text \<open>
  C3 (as the code has it). A profile whose measurements give THC = 20 and CBD = 10 is
  classified as \<^verbatim>\<open>Balanced\<close>: 20 is not greater than twice 10, and the comparison of
  \<^verbatim>\<open>classifyStrain\<close> is strict.
\<close>

theorem classify_boundary_balanced:
  assumes "Map_get (cannabinoids p) ''THC'' = Some 20"
    and "Map_get (cannabinoids p) ''CBD'' = Some 10"
  shows "strain_type (classifyStrain toFixed1 p) = ''Balanced''"
  using assms by (simp add: classifyStrain_def get_or_0_def)

theorem classify_boundary_balanced_witness:
  "Map_get (cannabinoids profile_20_10) ''THC'' = Some 20
   \<and> Map_get (cannabinoids profile_20_10) ''CBD'' = Some 10
   \<and> strain_type (classifyStrain toFixed_blank profile_20_10) = ''Balanced''"
proof -
  have thc: "Map_get (cannabinoids profile_20_10) ''THC'' = Some 20"
    by (simp add: profile_20_10_def Map_get_def)
  have cbd: "Map_get (cannabinoids profile_20_10) ''CBD'' = Some 10"
    by (simp add: profile_20_10_def Map_get_def)
  show ?thesis
    using thc cbd classify_boundary_balanced [OF thc cbd, of toFixed_blank] by simp
qed

text \<open>
  C3 as the claim states it, refuted: at THC = 20 and CBD = 10 the dominance type is not
  \<^verbatim>\<open>THC-Dominant\<close>.
\<close>

theorem classify_boundary_not_thc_dominant:
  "strain_type (classifyStrain toFixed_blank profile_20_10) \<noteq> ''THC-Dominant''"
  by (simp add: classifyStrain_def get_or_0_def profile_20_10_def Map_get_def)

section \<open>The long-form example\<close>

text \<open>
  C4 (as the code has it). The input with the batch column b1, b1, b1, the label column
  THC, CBD, CBN and the value column 20, 15, 2 is parsed to one profile with the
  measurements THC 20, CBD 15 and CBN 2 and the total 37; three records are processed,
  and the mode of the result is the string \<^verbatim>\<open>standard\<close>.
\<close>

theorem long_example_parse:
  "parseDataView fmt (Some long_example) =
     Inr \<lparr>profiles = [\<lparr>batchId = ''b1'', batchName = ''b1'',
                        cannabinoids = [(''THC'', 20), (''CBD'', 15), (''CBN'', 2)],
                        totalCannabinoids = 37\<rparr>],
          parseMode = ''standard'', recordsProcessed = 3\<rparr>"
  by (rule parse_long_example)

text \<open>
  C4 as the claim states it, refuted: the mode of the result for that input is not the
  string \<^verbatim>\<open>long\<close>.
\<close>

theorem long_example_mode_not_long:
  "map_sum id parseMode (parseDataView render_blank (Some long_example)) \<noteq> Inr ''long''"
  by (simp add: parse_long_example)

section \<open>The similarity score\<close>

lemma Math_exp_range: "0 \<le> Math_exp x" and Math_exp_le: "x \<le> 0 \<Longrightarrow> Math_exp x \<le> 1"
  by (simp_all add: Math_exp_def)

lemma similarity_of_nonneg_arg:
  "0 \<le> d \<Longrightarrow> similarity_of d = 100 * Math_exp (- d / 10)"
  using Math_exp_range [of "- d / 10"] Math_exp_le [of "- d / 10"]
  by (simp add: similarity_of_def)

lemma Math_exp_mono: "x \<le> y \<Longrightarrow> Math_exp x \<le> Math_exp y"
proof -
  assume "x \<le> y"
  then have le: "exp x \<le> exp y" by simp
  show ?thesis
  proof (cases "exp y < underflow_bound")
    case True
    with le have "exp x < underflow_bound" by (rule le_less_trans)
    then show ?thesis using True by (simp add: Math_exp_def)
  next
    case False
    then show ?thesis using le by (simp add: Math_exp_def)
  qed
qed

lemma similarity_mono: "d1 \<le> d2 \<Longrightarrow> similarity_of d2 \<le> similarity_of d1"
proof -
  assume "d1 \<le> d2"
  then have "Math_exp (- d2 / 10) \<le> Math_exp (- d1 / 10)"
    by (intro Math_exp_mono) simp
  then show ?thesis by (simp add: similarity_of_def min_def max_def)
qed

lemma similarity_range: "0 \<le> similarity_of d \<and> similarity_of d \<le> 100"
  by (simp add: similarity_of_def)

text \<open>The exponential of - 800 is below half of the least positive double.\<close>

lemma exp_half_lower: "13 / 8 \<le> exp (1 / 2 :: real)"
  using exp_lower_Taylor_quadratic [of "1 / 2 :: real"] by (simp add: power2_eq_square)

lemma exp_800_lower: "(2 :: real) ^ 1120 < exp 800"
proof -
  have small: "(2 :: real) ^ 7 < (13 / 8) ^ 10" by (simp add: power_divide)
  have "((2 :: real) ^ 7) ^ 160 < ((13 / 8) ^ 10) ^ 160"
    using small by (rule power_strict_mono) simp_all
  moreover have "((2 :: real) ^ 7) ^ 160 = 2 ^ 1120"
    by (simp only: power_mult [symmetric]) simp
  moreover have "(((13 / 8) :: real) ^ 10) ^ 160 = (13 / 8) ^ 1600"
    by (simp only: power_mult [symmetric]) simp
  ultimately have 1: "(2 :: real) ^ 1120 < (13 / 8) ^ 1600" by (simp only:)
  have "(13 / 8 :: real) ^ 1600 \<le> exp (1 / 2) ^ 1600"
    using exp_half_lower by (rule power_mono) simp
  also have "\<dots> = exp (of_nat 1600 * (1 / 2))"
    by (rule exp_of_nat_mult [symmetric])
  also have "of_nat 1600 * (1 / 2) = (800 :: real)" by simp
  finally have "(13 / 8 :: real) ^ 1600 \<le> exp 800" .
  with 1 show ?thesis by (rule less_le_trans)
qed

lemma exp_minus_800_underflow: "exp (- 800 :: real) < underflow_bound"
proof -
  have "(2 :: real) ^ 1075 \<le> 2 ^ 1120" by (rule power_increasing) simp_all
  then have lt: "(2 :: real) ^ 1075 < exp 800" using exp_800_lower by (rule le_less_trans)
  have pos: "(0 :: real) < 2 ^ 1075" by (rule zero_less_power) simp
  have "1 / exp (800 :: real) < 1 / 2 ^ 1075"
    by (rule divide_strict_left_mono [OF lt zero_less_one mult_pos_pos [OF exp_gt_zero pos]])
  moreover have "exp (- 800 :: real) = 1 / exp 800"
    by (simp only: exp_minus inverse_eq_divide)
  ultimately show ?thesis by (simp only: underflow_bound_def)
qed

lemma Math_exp_underflow: "x \<le> - 800 \<Longrightarrow> Math_exp x = 0"
proof -
  assume "x \<le> - 800"
  then have "exp x \<le> exp (- 800 :: real)" by simp
  then have "exp x < underflow_bound" using exp_minus_800_underflow by (rule le_less_trans)
  then show ?thesis by (simp add: Math_exp_def)
qed

lemma similarity_underflow: "8000 \<le> d \<Longrightarrow> similarity_of d = 0"
  by (simp add: similarity_of_def Math_exp_underflow)

lemma sqrt_square_examples: "sqrt 64000000 = 8000" "sqrt 81000000 = 9000"
  by (rule real_sqrt_unique; simp)+

lemma compare_examples:
  "cmp_distance (compareProfiles profile_empty profile_8000) = 8000"
  "cmp_distance (compareProfiles profile_empty profile_9000) = 9000"
  "cmp_similarity (compareProfiles profile_empty profile_8000) = 0"
  "cmp_similarity (compareProfiles profile_empty profile_9000) = 0"
  by (simp_all add: compareProfiles_def calculateEuclideanDistance_def profile_empty_def
      profile_8000_def profile_9000_def Set_from_def Map_keys_def get_or_0_def Map_get_def
      sqrt_square_examples Math_exp_underflow)

lemma fold_squares_nonneg:
  "0 \<le> acc \<Longrightarrow> 0 \<le> fold (\<lambda>key s. s + (f key - g key) ^ 2) ks (acc::real)"
  by (induction ks arbitrary: acc) auto

lemma distance_nonneg: "0 \<le> calculateEuclideanDistance m1 m2"
  by (simp add: calculateEuclideanDistance_def Let_def fold_squares_nonneg)

lemma set_insert_by: "set (insert_by cmp x ys) = insert x (set ys)"
  by (induction ys) auto

lemma set_Array_sort: "set (Array_sort cmp xs) = set xs"
  by (induction xs) (auto simp: Array_sort_def set_insert_by)

lemma set_Array_slice_0: "set (Array_slice_0 e xs) \<subseteq> set xs"
  by (auto simp: Array_slice_0_def Let_def dest: in_set_takeD)

lemma with_rank_fields:
  "profile (with_rank (i, s)) = profile s \<and> distance (with_rank (i, s)) = distance s
   \<and> similarity (with_rank (i, s)) = similarity s \<and> rank (with_rank (i, s)) = real i + 1"
  by (simp add: with_rank_def)

lemma findSimilar_elements:
  assumes "r \<in> set (findSimilarProfiles t cs lm ms)"
  shows "\<exists>p \<in> set cs. similarity r = similarity (score_candidate t p)
                     \<and> distance r = distance (score_candidate t p)"
proof -
  define limit where "limit = (case lm of None \<Rightarrow> 5 | Some l \<Rightarrow> l)"
  define minSimilarity where "minSimilarity = (case ms of None \<Rightarrow> 50 | Some m \<Rightarrow> m)"
  define kept where "kept = filter (\<lambda>result. similarity result \<ge> minSimilarity
                                    \<and> batchId (profile result) \<noteq> batchId t)
                   (map (score_candidate t) cs)"
  define sl where "sl = Array_slice_0 limit (Array_sort (\<lambda>a b. similarity b - similarity a) kept)"
  have res: "findSimilarProfiles t cs lm ms = map with_rank (enumerate 0 sl)"
    by (simp add: findSimilarProfiles_def Let_def sl_def kept_def limit_def minSimilarity_def)
  from assms obtain i s where r: "r = with_rank (i, s)" and "(i, s) \<in> set (enumerate 0 sl)"
    unfolding res by auto
  then have "s \<in> set sl" by (auto simp: in_set_enumerate_eq)
  moreover have "set sl \<subseteq> set (Array_sort (\<lambda>a b. similarity b - similarity a) kept)"
    unfolding sl_def by (rule set_Array_slice_0)
  ultimately have "s \<in> set kept"
    by (auto simp: set_Array_sort)
  then obtain p where "p \<in> set cs" "s = score_candidate t p"
    by (auto simp: kept_def)
  then show ?thesis using r by (auto simp: with_rank_fields)
qed

lemma findSimilar_similarity:
  assumes "r \<in> set (findSimilarProfiles t cs lm ms)"
  shows "similarity r = similarity_of (distance r) \<and> 0 \<le> distance r"
proof -
  from findSimilar_elements [OF assms] obtain p
    where "similarity r = similarity (score_candidate t p)"
      and "distance r = distance (score_candidate t p)" by blast
  then show ?thesis
    by (simp add: score_candidate_def similarity_of_def Let_def distance_nonneg)
qed

text \<open>
  C6 (as the code has it). For a distance \<open>d \<ge> 0\<close> the similarity is
  \<open>max 0 (min 100 (100 * Math_exp (- d / 10)))\<close> and lies between 0 and 100; it is 100 at
  distance 0, and it does not increase when the distance increases. It is the similarity
  that \<^verbatim>\<open>compareProfiles\<close> and \<^verbatim>\<open>findSimilarProfiles\<close> return for the distance they
  return, which is never negative.
\<close>

theorem similarity_non_increasing:
  "(0 \<le> d \<longrightarrow> similarity_of d = max 0 (min 100 (100 * Math_exp (- d / 10)))
                \<and> 0 \<le> similarity_of d \<and> similarity_of d \<le> 100)
   \<and> similarity_of 0 = 100
   \<and> (0 \<le> d1 \<and> d1 \<le> d2 \<longrightarrow> similarity_of d2 \<le> similarity_of d1)
   \<and> cmp_similarity (compareProfiles a b) = similarity_of (cmp_distance (compareProfiles a b))
   \<and> 0 \<le> cmp_distance (compareProfiles a b)
   \<and> (\<forall>r \<in> set (findSimilarProfiles t cs lm ms).
         similarity r = similarity_of (distance r) \<and> 0 \<le> distance r)"
proof -
  have 1: "similarity_of d = max 0 (min 100 (100 * Math_exp (- d / 10)))"
    by (simp add: similarity_of_def)
  have 2: "similarity_of 0 = 100"
    by (simp add: similarity_of_def Math_exp_0)
  have 3: "cmp_similarity (compareProfiles a b) = similarity_of (cmp_distance (compareProfiles a b))"
    by (simp add: compareProfiles_def similarity_of_def Let_def)
  have 4: "0 \<le> cmp_distance (compareProfiles a b)"
    by (simp add: compareProfiles_def Let_def distance_nonneg)
  show ?thesis
    using 1 2 3 4 similarity_range [of d] similarity_mono [of d1 d2] findSimilar_similarity [of _ t cs lm ms]
    by blast
qed

theorem similarity_non_increasing_witness:
  "(0 :: real) \<le> 10
   \<and> similarity_of 10 = max 0 (min 100 (100 * Math_exp (- 10 / 10)))
   \<and> 0 \<le> similarity_of 10 \<and> similarity_of 10 \<le> 100
   \<and> similarity_of 0 = 100
   \<and> (0 :: real) \<le> 10
   \<and> similarity_of 10 \<le> similarity_of 0
   \<and> cmp_similarity (compareProfiles profile_20_10 profile_b2)
       = similarity_of (cmp_distance (compareProfiles profile_20_10 profile_b2))
   \<and> \<lparr>profile = profile_b2, distance = 0, similarity = 100, rank = 1\<rparr>
       \<in> set (findSimilarProfiles profile_20_10 [profile_20_10, profile_b2, profile_b3] None None)
   \<and> similarity \<lparr>profile = profile_b2, distance = 0, similarity = (100 :: real), rank = (1 :: real)\<rparr>
       = similarity_of (distance \<lparr>profile = profile_b2, distance = (0 :: real), similarity = (100 :: real), rank = (1 :: real)\<rparr>)"
proof -
  note inst = similarity_non_increasing [of 10 0 10 profile_20_10 profile_b2 profile_20_10
      "[profile_20_10, profile_b2, profile_b3]" None None]
  have mem: "\<lparr>profile = profile_b2, distance = 0, similarity = 100, rank = 1\<rparr>
       \<in> set (findSimilarProfiles profile_20_10 [profile_20_10, profile_b2, profile_b3] None None)"
    by (simp add: findSimilar_example_defaults)
  from inst have "similarity_of 10 = max 0 (min 100 (100 * Math_exp (- 10 / 10)))"
    and "0 \<le> similarity_of 10" and "similarity_of 10 \<le> 100" and "similarity_of 0 = 100"
    and "similarity_of 10 \<le> similarity_of 0"
    and "cmp_similarity (compareProfiles profile_20_10 profile_b2)
       = similarity_of (cmp_distance (compareProfiles profile_20_10 profile_b2))"
    by simp_all
  moreover from inst mem
  have "similarity \<lparr>profile = profile_b2, distance = 0, similarity = (100 :: real), rank = (1 :: real)\<rparr>
       = similarity_of (distance \<lparr>profile = profile_b2, distance = (0 :: real), similarity = (100 :: real), rank = (1 :: real)\<rparr>)"
    by blast
  ultimately show ?thesis using mem by simp
qed

text \<open>
  C6 as the claim states it, refuted: the similarity is not strictly decreasing. At the
  distances 8000 and 9000 the exponential underflows and the similarity is 0 at both, for
  the expression and for \<^verbatim>\<open>compareProfiles\<close> on two pairs of profiles at these distances.
\<close>

theorem similarity_not_strictly_decreasing:
  "(0 :: real) \<le> 8000 \<and> (8000 :: real) < 9000
   \<and> similarity_of 8000 = 0 \<and> similarity_of 9000 = 0
   \<and> \<not> similarity_of 9000 < similarity_of 8000
   \<and> cmp_distance (compareProfiles profile_empty profile_8000) = 8000
   \<and> cmp_distance (compareProfiles profile_empty profile_9000) = 9000
   \<and> cmp_similarity (compareProfiles profile_empty profile_8000) = 0
   \<and> cmp_similarity (compareProfiles profile_empty profile_9000) = 0"
  by (simp add: similarity_underflow compare_examples)

section \<open>Ranking of similar profiles\<close>

lemma insert_by_insort:
  "insert_by (\<lambda>a b. f b - f a) x ys = insort_key (\<lambda>s. - f s) x (ys :: 'a list)" for f :: "'a \<Rightarrow> real"
  by (induction ys) auto

lemma Array_sort_sort_key:
  "Array_sort (\<lambda>a b. f b - f a) xs = sort_key (\<lambda>s. - f s) xs" for f :: "'a \<Rightarrow> real"
  by (induction xs) (auto simp: Array_sort_def insert_by_insort)

lemma Array_slice_0_nonneg: "0 \<le> e \<Longrightarrow> Array_slice_0 e xs = take (nat \<lfloor>e\<rfloor>) xs"
  by (auto simp: Array_slice_0_def Let_def min_def)

lemma truncate_with_rank: "Scored.truncate (with_rank (i, s)) = s"
  by (simp add: with_rank_def Scored.truncate_def)

lemma map_truncate_enumerate: "map Scored.truncate (map with_rank (enumerate n xs)) = xs"
  by (induction xs arbitrary: n) (auto simp: truncate_with_rank)

lemma findSimilar_unfold:
  "findSimilarProfiles t cs lm ms =
     map with_rank (enumerate 0
       (Array_slice_0 (case lm of None \<Rightarrow> 5 | Some l \<Rightarrow> l)
         (sort_key (\<lambda>s. - similarity s)
           (filter (\<lambda>s. similarity s \<ge> (case ms of None \<Rightarrow> 50 | Some m \<Rightarrow> m)
                        \<and> batchId (profile s) \<noteq> batchId t)
             (map (score_candidate t) cs)))))"
  by (simp add: findSimilarProfiles_def Let_def Array_sort_sort_key)

text \<open>
  C7 (as the code has it). With the defaults 5 for the limit and 50 for the least
  similarity, and for every limit that is not negative: the candidates that are kept are
  those whose batch id differs from the target's and whose similarity is not below the
  least similarity; the result is a list of exactly these (\<open>mset\<close>), in descending order
  of similarity, with candidates of equal similarity in their order in the input, cut to
  its first \<open>\<lfloor>limit\<rfloor>\<close> entries, which are at most \<open>limit\<close>; and the rank of the entry at
  position \<open>i\<close>, counted from 0, is \<open>i + 1\<close>.
\<close>

theorem findSimilar_ranking:
  fixes t :: CannabinoidProfile and cs :: "CannabinoidProfile list"
    and limit minSimilarity :: number
  defines "kept \<equiv> filter (\<lambda>s. batchId (profile s) \<noteq> batchId t \<and> \<not> similarity s < minSimilarity)
                    (map (score_candidate t) cs)"
  defines "res \<equiv> findSimilarProfiles t cs (Some limit) (Some minSimilarity)"
  assumes "0 \<le> limit"
  shows "findSimilarProfiles t cs None None = findSimilarProfiles t cs (Some 5) (Some 50)
       \<and> findSimilarProfiles t cs (Some limit) None = findSimilarProfiles t cs (Some limit) (Some 50)
       \<and> findSimilarProfiles t cs None (Some minSimilarity) = findSimilarProfiles t cs (Some 5) (Some minSimilarity)
       \<and> (\<exists>ordered.
             mset ordered = mset kept
           \<and> sorted_wrt (\<lambda>a b. similarity a \<ge> similarity b) ordered
           \<and> (\<forall>v. filter (\<lambda>s. similarity s = v) ordered = filter (\<lambda>s. similarity s = v) kept)
           \<and> map Scored.truncate res = take (nat \<lfloor>limit\<rfloor>) ordered
           \<and> real (length res) \<le> limit
           \<and> (\<forall>i < length res. rank (res ! i) = real i + 1))"
proof -
  define ordered where "ordered = sort_key (\<lambda>s. - similarity s) kept"
  have kept': "kept = filter (\<lambda>s. similarity s \<ge> minSimilarity \<and> batchId (profile s) \<noteq> batchId t)
                    (map (score_candidate t) cs)"
    unfolding kept_def by (rule filter_cong) auto
  have res: "res = map with_rank (enumerate 0 (take (nat \<lfloor>limit\<rfloor>) ordered))"
    using assms(3)
    by (simp add: res_def findSimilar_unfold ordered_def kept' Array_slice_0_nonneg)
  have 1: "mset ordered = mset kept" by (simp add: ordered_def)
  have "sorted (map (\<lambda>s. - similarity s) ordered)" by (simp add: ordered_def)
  then have 2: "sorted_wrt (\<lambda>a b. similarity a \<ge> similarity b) ordered"
    by (simp add: sorted_map)
  have 3: "filter (\<lambda>s. similarity s = v) ordered = filter (\<lambda>s. similarity s = v) kept" for v
  proof -
    have "filter (\<lambda>s. - similarity s = - v) (sort_key (\<lambda>s. - similarity s) kept)
          = filter (\<lambda>s. - similarity s = - v) kept"
      by (rule sort_key_stable)
    then show ?thesis by (simp add: ordered_def)
  qed
  have 4: "map Scored.truncate res = take (nat \<lfloor>limit\<rfloor>) ordered"
    by (simp only: res map_truncate_enumerate)
  have len: "length res = min (length ordered) (nat \<lfloor>limit\<rfloor>)"
    by (simp add: res)
  have "real (nat \<lfloor>limit\<rfloor>) \<le> limit" using assms(3) by simp
  then have 5: "real (length res) \<le> limit" unfolding len by linarith
  have 6: "rank (res ! i) = real i + 1" if "i < length res" for i
    using that by (simp add: res nth_enumerate_eq with_rank_fields)
  have 7: "findSimilarProfiles t cs None None = findSimilarProfiles t cs (Some 5) (Some 50)"
    "findSimilarProfiles t cs (Some limit) None = findSimilarProfiles t cs (Some limit) (Some 50)"
    "findSimilarProfiles t cs None (Some minSimilarity) = findSimilarProfiles t cs (Some 5) (Some minSimilarity)"
    by (simp_all add: findSimilarProfiles_def)
  from 1 2 3 4 5 6 7 show ?thesis by blast
qed

theorem findSimilar_ranking_witness:
  "(0 :: real) \<le> 1
   \<and> findSimilarProfiles profile_20_10 [profile_20_10, profile_b2, profile_b3] None None
       = findSimilarProfiles profile_20_10 [profile_20_10, profile_b2, profile_b3] (Some 5) (Some 50)
   \<and> (\<exists>ordered.
         mset ordered = mset (filter (\<lambda>s. batchId (profile s) \<noteq> batchId profile_20_10 \<and> \<not> similarity s < 50)
                                (map (score_candidate profile_20_10) [profile_20_10, profile_b2, profile_b3]))
       \<and> map Scored.truncate (findSimilarProfiles profile_20_10 [profile_20_10, profile_b2, profile_b3] (Some 1) (Some 50))
           = take (nat \<lfloor>1 :: real\<rfloor>) ordered)
   \<and> findSimilarProfiles profile_20_10 [profile_20_10, profile_b2, profile_b3] (Some 1) (Some 50)
       = [\<lparr>profile = profile_b2, distance = 0, similarity = 100, rank = 1\<rparr>]"
proof -
  have h: "(0 :: real) \<le> 1" by simp
  note inst = findSimilar_ranking [OF h, of profile_20_10 "[profile_20_10, profile_b2, profile_b3]" 50]
  have ev: "findSimilarProfiles profile_20_10 [profile_20_10, profile_b2, profile_b3] (Some 1) (Some 50)
       = [\<lparr>profile = profile_b2, distance = 0, similarity = 100, rank = 1\<rparr>]"
    by (simp add: findSimilarProfiles_def score_examples batchId_examples Array_sort_def
        Array_slice_0_def with_rank_def enumerate_eq_zip)
  from inst have "findSimilarProfiles profile_20_10 [profile_20_10, profile_b2, profile_b3] None None
       = findSimilarProfiles profile_20_10 [profile_20_10, profile_b2, profile_b3] (Some 5) (Some 50)"
    by blast
  moreover from inst have "\<exists>ordered.
         mset ordered = mset (filter (\<lambda>s. batchId (profile s) \<noteq> batchId profile_20_10 \<and> \<not> similarity s < 50)
                                (map (score_candidate profile_20_10) [profile_20_10, profile_b2, profile_b3]))
       \<and> map Scored.truncate (findSimilarProfiles profile_20_10 [profile_20_10, profile_b2, profile_b3] (Some 1) (Some 50))
           = take (nat \<lfloor>1 :: real\<rfloor>) ordered"
    by blast
  ultimately show ?thesis using h ev by blast
qed

text \<open>
  C7 as the claim states it, refuted at a negative limit: with the limit -1 and two
  candidates that pass the filter, the result has one entry, which is more than the
  limit; \<^verbatim>\<open>slice(0, -1)\<close> drops the last entry.
\<close>

theorem findSimilar_negative_limit:
  "findSimilarProfiles profile_20_10 [profile_20_10, profile_b2, profile_b3] (Some (- 1)) (Some 0) =
     [\<lparr>profile = profile_b2, distance = 0, similarity = 100, rank = 1\<rparr>]
   \<and> \<not> real (length (findSimilarProfiles profile_20_10 [profile_20_10, profile_b2, profile_b3]
                       (Some (- 1)) (Some 0))) \<le> - 1"
  by (simp add: findSimilar_example_negative_limit)

section \<open>The completeness score\<close>

text \<open>
  C8. For every profile with \<open>n\<close> measurement keys, the coverage is \<open>n / 9 * 100\<close>; the
  score is the coverage, plus 20 if \<open>n \<ge> 7\<close>, plus 10 if the total is above 10, and at
  most 100; the message is the one for incomplete profiles when the coverage is below 30,
  for partial ones below 60, for good ones below 90, and for complete ones otherwise.
\<close>

theorem completeness_score:
  fixes p :: CannabinoidProfile
  defines "n \<equiv> Map_size (cannabinoids p)"
  defines "c \<equiv> coverage (scoreProfileCompleteness p)"
  shows "c = real n / 9 * 100
    \<and> score (scoreProfileCompleteness p) =
        min 100 (c + (if n \<ge> 7 then 20 else 0) + (if totalCannabinoids p > 10 then 10 else 0))
    \<and> message (scoreProfileCompleteness p) =
        (if c < 30 then ''Incomplete profile - limited cannabinoid data''
         else if c < 60 then ''Partial profile - some cannabinoid data''
         else if c < 90 then ''Good profile - most cannabinoids detected''
         else ''Complete profile - all major cannabinoids detected'')"
  unfolding n_def c_def by (simp add: scoreProfileCompleteness_def Let_def)

section \<open>Input that is missing, malformed or not recognized\<close>

lemma String_js_raises: "String_js fmt v = Inl e \<longleftrightarrow> v = JObject None"
  by (cases e) (auto simp: String_js_def split: jsval.splits option.splits)

lemma String_js_returns: "v \<noteq> JObject None \<Longrightarrow> \<exists>s. String_js fmt v = Inr s"
  by (cases "String_js fmt v") (auto simp: String_js_raises)

lemma for_rows_returns:
  "(\<And>i s. i \<in> set rows \<Longrightarrow> \<exists>s'. body i s = Inr s') \<Longrightarrow> \<exists>st'. for_rows body rows st = Inr st'"
proof (induction rows arbitrary: st)
  case Nil
  then show ?case by simp
next
  case (Cons i rows)
  from Cons.prems [of i st] obtain s where s: "body i st = Inr s" by auto
  from Cons.IH [of s] Cons.prems obtain st' where "for_rows body rows s = Inr st'" by auto
  then show ?case using s by simp
qed

lemma for_rows_raises:
  "i \<in> set rows \<Longrightarrow> (\<And>s. body i s = Inl TypeError) \<Longrightarrow> for_rows body rows st = Inl TypeError"
proof (induction rows arbitrary: st)
  case Nil
  then show ?case by simp
next
  case (Cons j rows)
  show ?case
  proof (cases "body j st")
    case (Inl e)
    then show ?thesis by (cases e) simp
  next
    case (Inr s)
    have "j \<noteq> i" using Inr Cons.prems(2) [of st] by auto
    then have "i \<in> set rows" using Cons.prems(1) by simp
    from Cons.IH [OF this Cons.prems(2)] show ?thesis using Inr by simp
  qed
qed

lemma standard_loop_returns:
  assumes "JObject None \<notin> set bs" and "JObject None \<notin> set ns"
  shows "\<exists>st'. for_rows (standard_row fmt bs ns ps) [0 ..< min (length bs) (length ns)] st = Inr st'"
proof (rule for_rows_returns)
  fix i s
  assume "i \<in> set [0 ..< min (length bs) (length ns)]"
  then have "bs ! i \<in> set bs" and "ns ! i \<in> set ns" by simp_all
  then have "bs ! i \<noteq> JObject None" and "ns ! i \<noteq> JObject None" using assms by auto
  then obtain b n where "String_js fmt (bs ! i) = Inr b" and "String_js fmt (ns ! i) = Inr n"
    using String_js_returns by blast
  then have "standard_row fmt bs ns ps i s = Inr (standard_store ps i b n s)"
    by (simp add: standard_row_def)
  then show "\<exists>s'. standard_row fmt bs ns ps i s = Inr s'" by (rule exI)
qed

lemma cdes_loop_returns:
  assumes "JObject None \<notin> set bs"
  shows "\<exists>st'. for_rows (cdes_row fmt bs vals) [0 ..< length bs] st = Inr st'"
proof (rule for_rows_returns)
  fix i s
  assume "i \<in> set [0 ..< length bs]"
  then have "bs ! i \<in> set bs" by simp
  then have "bs ! i \<noteq> JObject None" using assms by auto
  then obtain b where "String_js fmt (bs ! i) = Inr b"
    using String_js_returns by blast
  then have "cdes_row fmt bs vals i s = Inr (cdes_store vals i b s)"
    by (simp add: cdes_row_def)
  then show "\<exists>s'. cdes_row fmt bs vals i s = Inr s'" by (rule exI)
qed

lemma cdes_loop_raises:
  assumes "JObject None \<in> set bs"
  shows "for_rows (cdes_row fmt bs vals) [0 ..< length bs] st = Inl TypeError"
proof -
  from assms obtain i where i: "i < length bs" and b: "bs ! i = JObject None"
    by (auto simp: in_set_conv_nth)
  have "cdes_row fmt bs vals i s = Inl TypeError" for s
    by (simp add: cdes_row_def b String_js_def)
  moreover have "i \<in> set [0 ..< length bs]" using i by simp
  ultimately show ?thesis by (rule for_rows_raises [rotated])
qed

lemma standard_guarded:
  assumes "categories d = Some cats" and "value_columns d = Some vals"
    and "JObject None \<notin> set (column_values cats 0)" and "JObject None \<notin> set (column_values cats 1)"
  shows "\<exists>r. parseStandardStructure fmt d = Inr r"
proof -
  from standard_loop_returns [OF assms(3,4)]
  obtain st where "for_rows (standard_row fmt (column_values cats 0) (column_values cats 1)
      (column_values vals 0))
      [0 ..< min (length (column_values cats 0)) (length (column_values cats 1))] ([], [], 0) = Inr st"
    by blast
  then show ?thesis using assms(1,2) by (simp add: parseStandardStructure_def Let_def)
qed

lemma cdes_guarded:
  assumes "categories d = Some cats" and "value_columns d = Some vals"
    and "JObject None \<notin> set (column_values cats 0)"
  shows "\<exists>r. parseCDESStructure fmt d = Inr r"
proof -
  from cdes_loop_returns [OF assms(3)]
  obtain st where "for_rows (cdes_row fmt (column_values cats 0) vals)
      [0 ..< length (column_values cats 0)] ([], [], 0) = Inr st"
    by blast
  then show ?thesis using assms(1,2) by (simp add: parseCDESStructure_def Let_def)
qed

lemma try_cdes_returns:
  assumes "categories d = Some cats" and "JObject None \<notin> set (column_values cats 0)"
  shows "\<exists>r. try_cdes fmt d cats = Inr r"
proof (cases "value_columns d")
  case None
  then show ?thesis by (simp add: try_cdes_def)
next
  case (Some vals)
  from cdes_guarded [OF assms(1) Some assms(2), of fmt]
  obtain r where "parseCDESStructure fmt d = Inr r" ..
  then show ?thesis by (simp add: try_cdes_def)
qed

lemma dataView_returns:
  assumes "cells_convert data"
  shows "\<exists>r. parseDataView fmt data = Inr r"
proof (cases data)
  case None
  then show ?thesis by (simp add: parseDataView_def)
next
  case (Some d)
  show ?thesis
  proof (cases "categories d")
    case None
    then show ?thesis using Some by (simp add: parseDataView_def)
  next
    case cats: (Some cats)
    from assms Some cats have c0: "JObject None \<notin> set (column_values cats 0)"
      and c1: "JObject None \<notin> set (column_values cats 1)"
      by (simp_all add: cells_convert_def)
    from try_cdes_returns [OF cats c0, of fmt]
    obtain tr where tr: "try_cdes fmt d cats = Inr tr" ..
    show ?thesis
    proof (cases "value_columns d")
      case None
      then show ?thesis using Some cats tr by (simp add: parseDataView_def)
    next
      case vals: (Some vals)
      from standard_guarded [OF cats vals c0 c1, of fmt]
      obtain sr where "parseStandardStructure fmt d = Inr sr" ..
      then show ?thesis using Some cats vals tr by (simp add: parseDataView_def)
    qed
  qed
qed

lemma dataView_empty_unknown:
  "parseDataView fmt data = Inr r \<Longrightarrow> profiles r = [] \<Longrightarrow> r = unknown_result"
  by (auto simp: parseDataView_def try_cdes_def split: option.splits if_splits sum.splits)

lemma dataView_no_categories:
  "data = None \<or> (\<exists>d. data = Some d \<and> (categories d = None \<or> categories d = Some [] \<or> value_columns d = None))
   \<Longrightarrow> parseDataView fmt data = Inr unknown_result"
  by (auto simp: parseDataView_def try_cdes_def split: option.splits)

lemma dataView_no_rows:
  assumes "data = Some d" and "categories d = Some cats" and "column_values cats 0 = []"
  shows "parseDataView fmt data = Inr unknown_result"
proof (cases "value_columns d")
  case None
  then show ?thesis using assms dataView_no_categories [of data fmt] by simp
next
  case (Some vals)
  have s: "parseStandardStructure fmt d =
             Inr \<lparr>profiles = [], parseMode = ''standard'', recordsProcessed = 0\<rparr>"
    using assms Some by (simp add: parseStandardStructure_def)
  have c: "parseCDESStructure fmt d = Inr \<lparr>profiles = [], parseMode = ''cdes'', recordsProcessed = 0\<rparr>"
    using assms Some by (simp add: parseCDESStructure_def)
  show ?thesis using assms Some by (simp add: parseDataView_def try_cdes_def s c)
qed

lemma js_or_object:
  "js_or (js_or a b) c = JObject None \<longleftrightarrow>
     a = JObject None \<or> (\<not> truthy a \<and> b = JObject None) \<or> (\<not> truthy a \<and> \<not> truthy b \<and> c = JObject None)"
  by (auto simp: js_or_def truthy_def)

lemma batch_returns:
  assumes "JObject None \<notin> {b ''id'', b ''batchId'', b ''name'', b ''strain''}"
  shows "\<exists>p. parseBatchJSON fmt (Some b) = Inr p"
proof -
  have "js_or (js_or (b ''id'') (b ''batchId'')) (JStr ''unknown'') \<noteq> JObject None"
    using assms by (auto simp: js_or_object)
  then obtain bid where bid: "String_js fmt (js_or (js_or (b ''id'') (b ''batchId'')) (JStr ''unknown'')) = Inr bid"
    using String_js_returns by blast
  have "js_or (js_or (b ''name'') (b ''strain'')) (JStr bid) \<noteq> JObject None"
    using assms by (auto simp: js_or_object)
  then obtain nme where "String_js fmt (js_or (js_or (b ''name'') (b ''strain'')) (JStr bid)) = Inr nme"
    using String_js_returns by blast
  then show ?thesis using bid by (simp add: parseBatchJSON_def Let_def)
qed

lemma raising_examples:
  "parseBatchJSON fmt None = Inl TypeError"
  "parseBatchJSON fmt (Some object_id_record) = Inl TypeError"
  "parseDataView fmt (Some object_cell_example) = Inl TypeError"
  unfolding object_id_record_def object_cell_example_def by code_simp+

text \<open>
  C9 (as the code has it). \<^verbatim>\<open>parseDataView\<close> returns a result for every input on whose
  category cells \<^verbatim>\<open>String\<close> does not raise (every string and number is such a cell),
  whatever is missing in it: the two structure parsers, which raise a \<^verbatim>\<open>TypeError\<close> when
  they read a missing part, are called only where that part is there. The result is the
  one with no profiles, the mode \<^verbatim>\<open>unknown\<close> and no records processed when the data is
  missing, when it has no categories, no category column or no values, when its first
  category column has no row, and whenever the result has no profile at all. The record
  parse returns a profile for every record that is there and whose fields \<^verbatim>\<open>id\<close>,
  \<^verbatim>\<open>batchId\<close>, \<^verbatim>\<open>name\<close> and \<^verbatim>\<open>strain\<close> are no objects that cannot be converted.
\<close>

theorem tabular_parse_raises_on_no_convertible_input:
  "(cells_convert data \<longrightarrow> (\<exists>r. parseDataView fmt data = Inr r))
   \<and> (data = None \<longrightarrow> parseDataView fmt data = Inr unknown_result)
   \<and> (\<forall>d. data = Some d \<and> (categories d = None \<or> categories d = Some [] \<or> value_columns d = None)
          \<longrightarrow> parseDataView fmt data = Inr unknown_result)
   \<and> (\<forall>d cats. data = Some d \<and> categories d = Some cats \<and> column_values cats 0 = []
          \<longrightarrow> parseDataView fmt data = Inr unknown_result)
   \<and> (\<forall>r. parseDataView fmt data = Inr r \<and> profiles r = [] \<longrightarrow> r = unknown_result)
   \<and> unknown_result = \<lparr>profiles = [], parseMode = ''unknown'', recordsProcessed = 0\<rparr>
   \<and> (\<forall>b. batch = Some b \<and> JObject None \<notin> {b ''id'', b ''batchId'', b ''name'', b ''strain''}
          \<longrightarrow> (\<exists>p. parseBatchJSON fmt batch = Inr p))"
proof -
  have 1: "cells_convert data \<longrightarrow> (\<exists>r. parseDataView fmt data = Inr r)"
    using dataView_returns by blast
  have 2: "data = None \<longrightarrow> parseDataView fmt data = Inr unknown_result"
    using dataView_no_categories [of data fmt] by blast
  have 3: "\<forall>d. data = Some d \<and> (categories d = None \<or> categories d = Some [] \<or> value_columns d = None)
          \<longrightarrow> parseDataView fmt data = Inr unknown_result"
    using dataView_no_categories [of data fmt] by blast
  have 4: "\<forall>d cats. data = Some d \<and> categories d = Some cats \<and> column_values cats 0 = []
          \<longrightarrow> parseDataView fmt data = Inr unknown_result"
    using dataView_no_rows [of data _ _ fmt] by blast
  have 5: "\<forall>r. parseDataView fmt data = Inr r \<and> profiles r = [] \<longrightarrow> r = unknown_result"
    using dataView_empty_unknown [of fmt data] by blast
  have 6: "unknown_result = \<lparr>profiles = [], parseMode = ''unknown'', recordsProcessed = 0\<rparr>"
    by (simp add: unknown_result_def)
  have 7: "\<forall>b. batch = Some b \<and> JObject None \<notin> {b ''id'', b ''batchId'', b ''name'', b ''strain''}
          \<longrightarrow> (\<exists>p. parseBatchJSON fmt batch = Inr p)"
    using batch_returns by blast
  from 1 2 3 4 5 6 7 show ?thesis by (intro conjI)
qed

theorem tabular_parse_raises_on_no_convertible_input_witness:
  "cells_convert (Some long_example)
   \<and> (\<exists>r. parseDataView render_blank (Some long_example) = Inr r)
   \<and> parseDataView render_blank None = Inr unknown_result
   \<and> categories no_categories_example = Some []
   \<and> parseDataView render_blank (Some no_categories_example) = Inr unknown_result
   \<and> unknown_result = \<lparr>profiles = [], parseMode = ''unknown'', recordsProcessed = 0\<rparr>
   \<and> JObject None \<notin> {record_example ''id'', record_example ''batchId'',
                       record_example ''name'', record_example ''strain''}
   \<and> (\<exists>p. parseBatchJSON render_blank (Some record_example) = Inr p)"
proof -
  have cc: "cells_convert (Some long_example)"
    by (simp add: cells_convert_def long_example_def column_values_def index_js_def)
  have c: "categories no_categories_example = Some []"
    by (simp add: no_categories_example_def)
  have f: "JObject None \<notin> {record_example ''id'', record_example ''batchId'',
                       record_example ''name'', record_example ''strain''}"
    by (simp add: record_example_def)
  from cc tabular_parse_raises_on_no_convertible_input [of "Some long_example" render_blank None]
  have 0: "\<exists>r. parseDataView render_blank (Some long_example) = Inr r" by blast
  from tabular_parse_raises_on_no_convertible_input [of None render_blank None]
  have 1: "parseDataView render_blank None = Inr unknown_result" by simp
  from c tabular_parse_raises_on_no_convertible_input [of "Some no_categories_example" render_blank None]
  have 2: "parseDataView render_blank (Some no_categories_example) = Inr unknown_result"
    and 3: "unknown_result = \<lparr>profiles = [], parseMode = ''unknown'', recordsProcessed = 0\<rparr>"
    by simp_all
  from f tabular_parse_raises_on_no_convertible_input [of None render_blank "Some record_example"]
  have 4: "\<exists>p. parseBatchJSON render_blank (Some record_example) = Inr p" by blast
  from cc 0 1 c 2 3 f 4 show ?thesis by (intro conjI)
qed

text \<open>
  C9 as the claim states it, refuted: parse operations raise on malformed and on missing
  input. \<^verbatim>\<open>parseBatchJSON\<close> raises a \<^verbatim>\<open>TypeError\<close> on a record that is \<^verbatim>\<open>null\<close> or
  \<^verbatim>\<open>undefined\<close> and on a record whose \<^verbatim>\<open>id\<close> is an object that cannot be converted
  to a string, and \<^verbatim>\<open>parseDataView\<close> raises one on a category cell that is such an
  object.
\<close>

theorem parse_operations_raise:
  "parseBatchJSON render_blank None = Inl TypeError
   \<and> parseBatchJSON render_blank (Some object_id_record) = Inl TypeError
   \<and> parseDataView render_blank (Some object_cell_example) = Inl TypeError"
  by (simp add: raising_examples)

section \<open>Acid and varin codes\<close>

text \<open>
  C10. The labels THCA and THCV resolve to THC, and CBDA and CBDV resolve to CBD: THC and
  CBD come first in the registry and are contained in the longer codes. Long-form rows
  with these labels are therefore stored under the keys THC and CBD.
\<close>

theorem acid_varin_resolve_to_parent:
  "getCannabioidDisplayName ''THCA'' = ''THC''
   \<and> getCannabioidDisplayName ''THCV'' = ''THC''
   \<and> getCannabioidDisplayName ''CBDA'' = ''CBD''
   \<and> getCannabioidDisplayName ''CBDV'' = ''CBD''
   \<and> parseDataView fmt (Some acid_varin_example) =
       Inr \<lparr>profiles = [\<lparr>batchId = ''b1'', batchName = ''b1'',
                          cannabinoids = [(''THC'', 18), (''CBD'', 3)],
                          totalCannabinoids = 21\<rparr>,
                        \<lparr>batchId = ''b2'', batchName = ''b2'',
                          cannabinoids = [(''THC'', 1), (''CBD'', 2)],
                          totalCannabinoids = 3\<rparr>],
            parseMode = ''standard'', recordsProcessed = 4\<rparr>"
  unfolding acid_varin_example_def by code_simp


section \<open>The wide-form parse\<close>

lemma Set_from_fold_set:
  "set (fold (\<lambda>x s. if x \<in> set s then s else s @ [x]) xs acc) = set acc \<union> set xs"
  by (induction xs arbitrary: acc) auto

lemma Set_from_fold_distinct:
  "distinct acc \<Longrightarrow> distinct (fold (\<lambda>x s. if x \<in> set s then s else s @ [x]) xs acc)"
  by (induction xs arbitrary: acc) auto

lemma set_Set_from: "set (Set_from xs) = set xs"
  by (simp add: Set_from_def Set_from_fold_set)

lemma distinct_Set_from: "distinct (Set_from xs)"
  by (simp add: Set_from_def Set_from_fold_distinct)

lemma Set_from_snoc:
  "Set_from (xs @ [x]) = (if x \<in> set xs then Set_from xs else Set_from xs @ [x])"
  using set_Set_from [of xs] by (simp add: Set_from_def)

lemma wide_cell_eq: "Number_or_0 (index_js (column_values vals j) i) = wide_cell vals j i"
  by (simp add: wide_cell_def column_values_def index_js_def Number_or_0_def split: option.splits)

lemma wide_stored_0: "wide_stored ids 0 vals b j = None"
  by (simp add: wide_stored_def)

lemma wide_stored_Suc:
  "wide_stored ids (Suc k) vals b j =
     (if ids ! k = b \<and> wide_cell vals j k > 0 then Some (wide_cell vals j k)
      else wide_stored ids k vals b j)"
  by (simp add: wide_stored_def Let_def)

lemma distinct_cdesColumns: "distinct cdesColumns" and length_cdesColumns: "length cdesColumns = 9"
  by (simp_all add: cdesColumns_def)

lemma cdes_cell_unfold:
  "cdes_cell vals i c mp =
     (if wide_cell vals c i > 0 then Map_set (cdesColumns ! c) (wide_cell vals c i) mp else mp)"
  by (simp add: cdes_cell_def Let_def wide_cell_eq)

lemma cdes_cells_lookup:
  assumes "m \<le> length cdesColumns" and "j < length cdesColumns"
  shows "map_of (fold (cdes_cell vals i) [0 ..< m] mp) (cdesColumns ! j) =
           (if j < m \<and> wide_cell vals j i > 0 then Some (wide_cell vals j i)
            else map_of mp (cdesColumns ! j))"
  using assms(1)
proof (induction m)
  case 0
  then show ?case by simp
next
  case (Suc m)
  then have m: "m < length cdesColumns" by simp
  have ne: "cdesColumns ! m \<noteq> cdesColumns ! j" if "j \<noteq> m"
    using that m assms(2) distinct_cdesColumns by (simp add: nth_eq_iff_index_eq)
  show ?case
  proof (cases "j = m")
    case True
    then show ?thesis using Suc by (simp add: cdes_cell_unfold map_of_Map_set)
  next
    case False
    then show ?thesis using Suc ne [OF False] by (auto simp: cdes_cell_unfold map_of_Map_set)
  qed
qed

lemma cdes_cell_keys:
  "set (map fst (cdes_cell vals i c mp)) \<subseteq> insert (cdesColumns ! c) (set (map fst mp))"
proof (cases "wide_cell vals c i > 0")
  case True
  then have "cdes_cell vals i c mp = Map_set (cdesColumns ! c) (wide_cell vals c i) mp"
    by (simp add: cdes_cell_unfold)
  then show ?thesis by (auto simp: keys_Map_set split: if_splits)
next
  case False
  then have "cdes_cell vals i c mp = mp" by (simp add: cdes_cell_unfold)
  then show ?thesis by auto
qed

lemma cdes_cells_keys:
  "m \<le> length cdesColumns \<Longrightarrow>
   set (map fst (fold (cdes_cell vals i) [0 ..< m] mp)) \<subseteq> set (map fst mp) \<union> set (take m cdesColumns)"
proof (induction m)
  case 0
  then show ?case by simp
next
  case (Suc m)
  then have m: "m < length cdesColumns" by simp
  then have t: "set (take (Suc m) cdesColumns) = insert (cdesColumns ! m) (set (take m cdesColumns))"
    by (simp add: take_Suc_conv_app_nth)
  define before where "before = fold (cdes_cell vals i) [0 ..< m] mp"
  have IH: "set (map fst before) \<subseteq> set (map fst mp) \<union> set (take m cdesColumns)"
    unfolding before_def using Suc by simp
  have step: "fold (cdes_cell vals i) [0 ..< Suc m] mp = cdes_cell vals i m before"
    by (simp add: before_def)
  show ?case unfolding step t using cdes_cell_keys [of vals i m before] IH by blast
qed

lemma cdes_cell_positive:
  assumes "\<forall>e \<in> set mp. 0 < snd e"
  shows "\<forall>e \<in> set (cdes_cell vals i c mp). 0 < snd e"
proof (cases "wide_cell vals c i > 0")
  case True
  then have "cdes_cell vals i c mp = Map_set (cdesColumns ! c) (wide_cell vals c i) mp"
    by (simp add: cdes_cell_unfold)
  moreover have "\<forall>e \<in> insert (cdesColumns ! c, wide_cell vals c i) (set mp). 0 < snd e"
    using assms True by simp
  ultimately show ?thesis
    using set_Map_set [of "cdesColumns ! c" "wide_cell vals c i" mp] by (metis subsetD)
next
  case False
  then have "cdes_cell vals i c mp = mp" by (simp add: cdes_cell_unfold)
  then show ?thesis using assms by simp
qed

lemma cdes_cells_positive:
  "\<forall>e \<in> set mp. 0 < snd e \<Longrightarrow> \<forall>e \<in> set (fold (cdes_cell vals i) cols mp). 0 < snd e"
proof (induction cols arbitrary: mp)
  case Nil
  then show ?case by simp
next
  case (Cons c cols)
  from Cons.IH [OF cdes_cell_positive [OF Cons.prems]] show ?case by simp
qed

lemma get_profile_ensure:
  "get_profile (fst (ensure_profile bid (pm, nm))) b = get_profile pm b"
proof (cases "Map_has pm bid")
  case True
  then show ?thesis by (simp add: ensure_profile_def)
next
  case False
  then have "map_of pm bid = None" by (simp add: Map_has_def map_of_eq_None_iff)
  then show ?thesis using False
    by (simp add: ensure_profile_def get_profile_def Map_get_def map_of_Map_set)
qed

lemma get_profile_Map_set:
  "get_profile (Map_set bid v pm) b = (if b = bid then v else get_profile pm b)"
  by (simp add: get_profile_def Map_get_def map_of_Map_set)

lemma keys_ensure:
  "map fst (fst (ensure_profile bid (pm, nm))) =
     (if bid \<in> set (map fst pm) then map fst pm else map fst pm @ [bid])"
  by (simp add: ensure_profile_def Map_has_def keys_Map_set)

lemma get_profile_cases: "get_profile pm b = [] \<or> (b, get_profile pm b) \<in> set pm"
  by (auto simp: get_profile_def Map_get_def split: option.splits dest: map_of_SomeD)

lemma take_min_cdesColumns:
  "take (min (length cdesColumns) n) cdesColumns = take n cdesColumns"
  by (cases "n \<le> length cdesColumns") (simp_all add: min_def)

lemma cdes_store_unfold:
  "cdes_store vals i bid (pm, nm, cnt) =
     (Map_set bid
        (fold (cdes_cell vals i) [0 ..< min (length cdesColumns) (length vals)] (get_profile pm bid))
        (fst (ensure_profile bid (pm, nm))),
      snd (ensure_profile bid (pm, nm)), Suc cnt)"
  by (simp add: cdes_store_def Let_def get_profile_ensure)

lemma set_ensure:
  "set (fst (ensure_profile bid (pm, nm))) \<subseteq> insert (bid, []) (set pm)"
  using set_Map_set [of bid "[]" pm] by (auto simp: ensure_profile_def)

lemma cdes_store_keys:
  "map fst (fst (cdes_store vals i bid (pm, nm, cnt))) =
     (if bid \<in> set (map fst pm) then map fst pm else map fst pm @ [bid])"
  by (simp add: cdes_store_unfold keys_Map_set keys_ensure)

lemma cdes_store_lookup:
  assumes "j < length cdesColumns"
  shows "map_of (get_profile (fst (cdes_store vals i bid (pm, nm, cnt))) b) (cdesColumns ! j) =
           (if b = bid \<and> j < length vals \<and> wide_cell vals j i > 0
            then Some (wide_cell vals j i)
            else map_of (get_profile pm b) (cdesColumns ! j))"
  using assms
  by (simp add: cdes_store_unfold get_profile_Map_set get_profile_ensure cdes_cells_lookup)

lemma cdes_store_entries:
  assumes "\<forall>e \<in> set pm. set (map fst (snd e)) \<subseteq> set (take (length vals) cdesColumns)
                        \<and> (\<forall>x \<in> set (snd e). 0 < snd x)"
    and "e \<in> set (fst (cdes_store vals i bid (pm, nm, cnt)))"
  shows "set (map fst (snd e)) \<subseteq> set (take (length vals) cdesColumns) \<and> (\<forall>x \<in> set (snd e). 0 < snd x)"
proof -
  define old where "old = get_profile pm bid"
  define new where "new = fold (cdes_cell vals i) [0 ..< min (length cdesColumns) (length vals)] old"
  have old: "set (map fst old) \<subseteq> set (take (length vals) cdesColumns) \<and> (\<forall>x \<in> set old. 0 < snd x)"
    using get_profile_cases [of pm bid] assms(1) unfolding old_def by fastforce
  have k: "set (map fst new) \<subseteq> set (take (length vals) cdesColumns)"
    using cdes_cells_keys [of "min (length cdesColumns) (length vals)" vals i old] old
    unfolding new_def take_min_cdesColumns by auto
  have p: "\<forall>x \<in> set new. 0 < snd x"
    unfolding new_def using old by (intro cdes_cells_positive) simp
  have "e \<in> insert (bid, new) (insert (bid, []) (set pm))"
    using assms(2) set_Map_set [of bid new "fst (ensure_profile bid (pm, nm))"] set_ensure [of bid pm nm]
    unfolding cdes_store_unfold old_def [symmetric] new_def [symmetric]
    by auto
  then consider "e = (bid, new)" | "e = (bid, [])" | "e \<in> set pm" by blast
  then show ?thesis
  proof cases
    case 1
    then show ?thesis using k p by simp
  next
    case 2
    then show ?thesis by simp
  next
    case 3
    then show ?thesis using assms(1) by blast
  qed
qed

lemma for_rows_snoc:
  "for_rows body (rows @ [i]) st =
     (case for_rows body rows st of Inl e \<Rightarrow> Inl e | Inr s \<Rightarrow> body i s)"
  by (induction rows arbitrary: st) (auto split: sum.splits)

lemma converted_cells:
  "JObject None \<notin> set bs \<Longrightarrow> \<exists>ids. map (String_js fmt) bs = map Inr ids"
proof (induction bs)
  case Nil
  then show ?case by simp
next
  case (Cons b bs)
  then obtain ids where ids: "map (String_js fmt) bs = map Inr ids" by auto
  from Cons.prems have "b \<noteq> JObject None" by auto
  then obtain s where "String_js fmt b = Inr s" using String_js_returns by blast
  then have "map (String_js fmt) (b # bs) = map Inr (s # ids)" using ids by simp
  then show ?case by (rule exI)
qed

lemma cdes_loop_invariant:
  assumes "k \<le> length bs" and conv: "map (String_js fmt) bs = map Inr ids"
  shows "\<exists>pm nm. for_rows (cdes_row fmt bs vals) [0 ..< k] ([], [], 0) = Inr (pm, nm, k)
     \<and> map fst pm = Set_from (take k ids)
     \<and> (\<forall>b j. j < length cdesColumns \<longrightarrow>
            map_of (get_profile pm b) (cdesColumns ! j) =
              (if j < length vals then wide_stored ids k vals b j else None))
     \<and> (\<forall>e \<in> set pm. set (map fst (snd e)) \<subseteq> set (take (length vals) cdesColumns)
                       \<and> (\<forall>x \<in> set (snd e). 0 < snd x))"
  using assms(1)
proof (induction k)
  case 0
  show ?case by (simp add: Set_from_def get_profile_def Map_get_def wide_stored_0)
next
  case (Suc k)
  then have k: "k < length bs" by simp
  have len: "length ids = length bs"
    using conv by (metis length_map)
  have id_k: "String_js fmt (bs ! k) = Inr (ids ! k)"
    using conv k len by (metis nth_map)
  from Suc obtain pm nm where st: "for_rows (cdes_row fmt bs vals) [0 ..< k] ([], [], 0) = Inr (pm, nm, k)"
    and keys: "map fst pm = Set_from (take k ids)"
    and look: "\<And>b j. j < length cdesColumns \<Longrightarrow>
            map_of (get_profile pm b) (cdesColumns ! j) =
              (if j < length vals then wide_stored ids k vals b j else None)"
    and ent: "\<forall>e \<in> set pm. set (map fst (snd e)) \<subseteq> set (take (length vals) cdesColumns)
                       \<and> (\<forall>x \<in> set (snd e). 0 < snd x)"
    by auto
  define st' where "st' = cdes_store vals k (ids ! k) (pm, nm, k)"
  have step: "for_rows (cdes_row fmt bs vals) [0 ..< Suc k] ([], [], 0) = Inr st'"
    by (simp add: for_rows_snoc st st'_def cdes_row_def id_k)
  have cnt: "snd (snd st') = Suc k" by (simp add: st'_def cdes_store_unfold)
  have tk: "take (Suc k) ids = take k ids @ [ids ! k]"
    using k len by (simp add: take_Suc_conv_app_nth)
  have 1: "map fst (fst st') = Set_from (take (Suc k) ids)"
    unfolding st'_def cdes_store_keys tk Set_from_snoc keys set_Set_from by simp
  have 2: "map_of (get_profile (fst st') b) (cdesColumns ! j) =
              (if j < length vals then wide_stored ids (Suc k) vals b j else None)"
    if "j < length cdesColumns" for b j
    unfolding st'_def cdes_store_lookup [OF that] wide_stored_Suc look [OF that]
    by auto
  have 3: "\<forall>e \<in> set (fst st'). set (map fst (snd e)) \<subseteq> set (take (length vals) cdesColumns)
                       \<and> (\<forall>x \<in> set (snd e). 0 < snd x)"
    unfolding st'_def using cdes_store_entries [OF ent] by blast
  obtain pm' nm' c' where s': "st' = (pm', nm', c')" by (cases st')
  show ?case unfolding step using 1 2 3 cnt by (simp add: s')
qed

lemma cdes_structure_result:
  assumes "categories data = Some cats" and "value_columns data = Some vals"
    and conv: "map (String_js fmt) (column_values cats 0) = map Inr ids"
  shows "\<exists>r. parseCDESStructure fmt data = Inr r
        \<and> parseMode r = ''cdes''
        \<and> recordsProcessed r = length ids
        \<and> map batchId (profiles r) = Set_from ids
        \<and> (\<forall>p \<in> set (profiles r).
              (\<forall>j < length cdesColumns.
                 Map_get (cannabinoids p) (cdesColumns ! j) =
                   (if j < length vals
                    then wide_stored ids (length ids) vals (batchId p) j
                    else None))
            \<and> set (Map_keys (cannabinoids p)) \<subseteq> set (take (length vals) cdesColumns)
            \<and> (\<forall>v \<in> set (Map_values (cannabinoids p)). 0 < v))"
proof -
  define bs where "bs = column_values cats 0"
  have len: "length ids = length bs"
    using conv unfolding bs_def by (metis length_map)
  from cdes_loop_invariant [of "length bs" bs fmt ids vals] conv
  obtain pm nm where st: "for_rows (cdes_row fmt bs vals) [0 ..< length bs] ([], [], 0) = Inr (pm, nm, length bs)"
    and keys: "map fst pm = Set_from ids"
    and look: "\<And>b j. j < length cdesColumns \<Longrightarrow>
            map_of (get_profile pm b) (cdesColumns ! j) =
              (if j < length vals then wide_stored ids (length ids) vals b j else None)"
    and ent: "\<forall>e \<in> set pm. set (map fst (snd e)) \<subseteq> set (take (length vals) cdesColumns)
                       \<and> (\<forall>x \<in> set (snd e). 0 < snd x)"
    unfolding bs_def [symmetric] len [symmetric] by (auto simp: len)
  define r where "r = \<lparr>profiles = map (make_profile nm) pm, parseMode = ''cdes'',
                         recordsProcessed = length ids\<rparr>"
  have res: "parseCDESStructure fmt data = Inr r"
    using assms(1,2) by (simp add: parseCDESStructure_def Let_def bs_def [symmetric] st r_def len)
  have ids: "map batchId (profiles r) = Set_from ids"
    by (simp add: r_def keys [symmetric] make_profile_def comp_def)
  have dist: "distinct (map fst pm)" unfolding keys by (rule distinct_Set_from)
  have prof: "(\<forall>j < length cdesColumns.
                 Map_get (cannabinoids p) (cdesColumns ! j) =
                   (if j < length vals
                    then wide_stored ids (length ids) vals (batchId p) j
                    else None))
            \<and> set (Map_keys (cannabinoids p)) \<subseteq> set (take (length vals) cdesColumns)
            \<and> (\<forall>v \<in> set (Map_values (cannabinoids p)). 0 < v)"
    if "p \<in> set (profiles r)" for p
  proof -
    from that obtain e where e: "e \<in> set pm" and p: "p = make_profile nm e"
      by (auto simp: r_def)
    have b: "batchId p = fst e" and c: "cannabinoids p = snd e"
      by (simp_all add: p make_profile_def)
    have "map_of pm (fst e) = Some (snd e)"
      using map_of_is_SomeI [OF dist, of "fst e" "snd e"] e by simp
    then have g: "get_profile pm (fst e) = snd e"
      by (simp add: get_profile_def Map_get_def)
    have 1: "\<forall>j < length cdesColumns.
                 Map_get (cannabinoids p) (cdesColumns ! j) =
                   (if j < length vals
                    then wide_stored ids (length ids) vals (batchId p) j
                    else None)"
      using look [of _ "fst e"] by (simp add: b c g Map_get_def)
    have 2: "set (Map_keys (cannabinoids p)) \<subseteq> set (take (length vals) cdesColumns)"
      using ent e by (simp add: c Map_keys_def)
    have 3: "\<forall>v \<in> set (Map_values (cannabinoids p)). 0 < v"
      using ent e by (auto simp: c Map_values_def)
    from 1 2 3 show ?thesis by blast
  qed
  have "parseMode r = ''cdes''" and "recordsProcessed r = length ids"
    by (simp_all add: r_def)
  with res ids prof show ?thesis by blast
qed

lemma cdes_structure_raises:
  assumes "categories data = Some cats" and "value_columns data = Some vals"
    and "JObject None \<in> set (column_values cats 0)"
  shows "parseCDESStructure fmt data = Inl TypeError"
  using assms(1,2) cdes_loop_raises [OF assms(3), of fmt vals]
  by (simp add: parseCDESStructure_def Let_def)

lemma dataView_single_category:
  assumes "categories data = Some cats" and "value_columns data = Some vals"
    and "length cats = 1" and "column_values cats 0 \<noteq> []"
  shows "parseDataView fmt (Some data) = parseCDESStructure fmt data"
proof (cases "JObject None \<in> set (column_values cats 0)")
  case True
  from cdes_structure_raises [OF assms(1,2) True, of fmt] show ?thesis
    using assms(1,2,3) by (simp add: parseDataView_def try_cdes_def)
next
  case False
  from converted_cells [OF False, of fmt]
  obtain ids where conv: "map (String_js fmt) (column_values cats 0) = map Inr ids" ..
  then have "length ids = length (column_values cats 0)" by (metis length_map)
  then have ne: "ids \<noteq> []" using assms(4) by auto
  from cdes_structure_result [OF assms(1,2) conv]
  obtain r where r: "parseCDESStructure fmt data = Inr r"
    and ids: "map batchId (profiles r) = Set_from ids"
    by blast
  have "set (map batchId (profiles r)) \<noteq> {}"
    unfolding ids set_Set_from using ne by simp
  then have "profiles r \<noteq> []" by auto
  then show ?thesis using assms(1,2,3) r
    by (simp add: parseDataView_def try_cdes_def)
qed

text \<open>
  C5 (as the code has it). In the wide-form parse \<^verbatim>\<open>parseCDESStructure\<close>, for every
  input with its categories and value columns there (in particular with at least one
  category column), and with \<open>ids\<close> the strings that \<^verbatim>\<open>String\<close> gives for the cells of
  the first category column: the mode of the result is the string \<^verbatim>\<open>cdes\<close>, every row
  of the first category column is counted, and the profiles are those of the batches in
  the order in which they are first seen. Value column \<open>j\<close> goes to position \<open>j\<close> of the
  list THC, CBD, CBN, CBG, CBC, THCV, CBDV, THCA, CBDA, as far as the shorter of the two
  reaches: the measurement of a batch under the code at position \<open>j\<close> is the last cell
  greater than 0 of column \<open>j\<close> in the rows of that batch, and absent when there is no
  such cell or no such column; no other key is stored, and every stored value is greater
  than 0. The strings \<open>ids\<close> exist unless a cell of the first category column is an
  object that cannot be converted, and then the parse raises a \<^verbatim>\<open>TypeError\<close>. With a
  single category column that has a row the outcome is that of \<^verbatim>\<open>parseDataView\<close>. In
  particular one batch row with the value columns 20, 15, 2, 1 yields the measurements
  THC 20, CBD 15, CBN 2, CBG 1 and the mode \<^verbatim>\<open>cdes\<close>.
\<close>

theorem wide_form_parse:
  "(categories data = Some cats \<and> value_columns data = Some vals \<longrightarrow>
      (\<forall>ids. map (String_js fmt) (column_values cats 0) = map Inr ids \<longrightarrow>
        (\<exists>r. parseCDESStructure fmt data = Inr r
          \<and> parseMode r = ''cdes''
          \<and> recordsProcessed r = length (column_values cats 0)
          \<and> map batchId (profiles r) = Set_from ids
          \<and> (\<forall>p \<in> set (profiles r).
                (\<forall>j < length cdesColumns.
                   Map_get (cannabinoids p) (cdesColumns ! j) =
                     (if j < length vals
                      then wide_stored ids (length (column_values cats 0)) vals (batchId p) j
                      else None))
              \<and> set (Map_keys (cannabinoids p)) \<subseteq> set (take (length vals) cdesColumns)
              \<and> (\<forall>v \<in> set (Map_values (cannabinoids p)). 0 < v))))
      \<and> (JObject None \<notin> set (column_values cats 0) \<longrightarrow>
            (\<exists>ids. map (String_js fmt) (column_values cats 0) = map Inr ids))
      \<and> (JObject None \<in> set (column_values cats 0) \<longrightarrow> parseCDESStructure fmt data = Inl TypeError)
      \<and> (length cats = 1 \<and> column_values cats 0 \<noteq> [] \<longrightarrow>
            parseDataView fmt (Some data) = parseCDESStructure fmt data))
   \<and> cdesColumns = [''THC'', ''CBD'', ''CBN'', ''CBG'', ''CBC'', ''THCV'', ''CBDV'', ''THCA'', ''CBDA'']
   \<and> parseDataView fmt (Some wide_example) =
       Inr \<lparr>profiles = [\<lparr>batchId = ''b1'', batchName = ''b1'',
                          cannabinoids = [(''THC'', 20), (''CBD'', 15), (''CBN'', 2), (''CBG'', 1)],
                          totalCannabinoids = 38\<rparr>],
            parseMode = ''cdes'', recordsProcessed = 1\<rparr>"
proof -
  have main: "\<exists>r. parseCDESStructure fmt data = Inr r
          \<and> parseMode r = ''cdes''
          \<and> recordsProcessed r = length (column_values cats 0)
          \<and> map batchId (profiles r) = Set_from ids
          \<and> (\<forall>p \<in> set (profiles r).
                (\<forall>j < length cdesColumns.
                   Map_get (cannabinoids p) (cdesColumns ! j) =
                     (if j < length vals
                      then wide_stored ids (length (column_values cats 0)) vals (batchId p) j
                      else None))
              \<and> set (Map_keys (cannabinoids p)) \<subseteq> set (take (length vals) cdesColumns)
              \<and> (\<forall>v \<in> set (Map_values (cannabinoids p)). 0 < v))"
    if "categories data = Some cats" "value_columns data = Some vals"
      and conv: "map (String_js fmt) (column_values cats 0) = map Inr ids" for ids
  proof -
    have l: "length ids = length (column_values cats 0)" using conv by (metis length_map)
    show ?thesis using cdes_structure_result [OF that] unfolding l .
  qed
  have cols: "cdesColumns = [''THC'', ''CBD'', ''CBN'', ''CBG'', ''CBC'', ''THCV'', ''CBDV'', ''THCA'', ''CBDA'']"
    by (simp add: cdesColumns_def)
  show ?thesis
    using main converted_cells [of "column_values cats 0" fmt]
      cdes_structure_raises [of data cats vals fmt]
      dataView_single_category [of data cats vals fmt] cols parse_wide_example [of fmt]
    by blast
qed

theorem wide_form_parse_witness:
  "categories wide_example = Some [[JStr ''b1'']]
   \<and> value_columns wide_example = Some [[Some 20], [Some 15], [Some 2], [Some 1]]
   \<and> map (String_js render_blank) (column_values [[JStr ''b1'']] 0) = map Inr [''b1'']
   \<and> (\<exists>r. parseCDESStructure render_blank wide_example = Inr r
          \<and> parseMode r = ''cdes''
          \<and> recordsProcessed r = 1
          \<and> map batchId (profiles r) = [''b1''])
   \<and> parseDataView render_blank (Some wide_example) = parseCDESStructure render_blank wide_example"
proof -
  have c: "categories wide_example = Some [[JStr ''b1'']]"
    and v: "value_columns wide_example = Some [[Some 20], [Some 15], [Some 2], [Some 1]]"
    by (simp_all add: wide_example_def)
  have col: "column_values [[JStr ''b1'']] 0 = [JStr ''b1'']"
    by (simp add: column_values_def index_js_def)
  have conv: "map (String_js render_blank) (column_values [[JStr ''b1'']] 0) = map Inr [''b1'']"
    by (simp add: col String_js_def)
  have ids: "Set_from [''b1''] = [''b1'']"
    by (simp add: Set_from_def)
  note inst = wide_form_parse [of wide_example "[[JStr ''b1'']]"
      "[[Some 20], [Some 15], [Some 2], [Some 1]]" render_blank]
  from inst c v conv have "\<exists>r. parseCDESStructure render_blank wide_example = Inr r
          \<and> parseMode r = ''cdes''
          \<and> recordsProcessed r = length (column_values [[JStr ''b1'']] 0)
          \<and> map batchId (profiles r) = Set_from [''b1'']"
    by blast
  then have 1: "\<exists>r. parseCDESStructure render_blank wide_example = Inr r
          \<and> parseMode r = ''cdes''
          \<and> recordsProcessed r = 1
          \<and> map batchId (profiles r) = [''b1'']"
    unfolding col ids by simp
  from inst c v
  have 2: "parseDataView render_blank (Some wide_example) = parseCDESStructure render_blank wide_example"
    unfolding col by simp
  from c v conv 1 2 show ?thesis by (intro conjI)
qed

text \<open>
  C5 as the claim states it, refuted: the mode of the result for the batch row with the
  value columns 20, 15, 2, 1 is not the string \<^verbatim>\<open>wide\<close>.
\<close>

theorem wide_example_mode_not_wide:
  "map_sum id parseMode (parseDataView render_blank (Some wide_example)) \<noteq> Inr ''wide''"
  by (simp add: parse_wide_example)


end
